theory Spec2Isabelle
  imports Main "HOL-Library.Log_Nat"
begin

section \<open>Python values, exceptions and text\<close>

text \<open>
  The module \<^verbatim>\<open>soaplib/serializers/primitive.py\<close> is Python 2 code.  Every
  \<^verbatim>\<open>raise\<close> of the module and of the builtins it calls is a value of
  \<open>error\<close>; a function that can raise returns \<open>error + 'a\<close>.  Python's \<^verbatim>\<open>None\<close>
  is \<open>None\<close> of an option type where the other values have one type, and \<open>PyNone\<close>
  where the code is dynamically typed.
\<close>

datatype error =
    AttributeError
  | TypeError
  | ValueError
  | IndexError
  | UnicodeEncodeError
  | UnicodeDecodeError
  | Exception_msg string

datatype pyval =
    PyNone
  | PyBool bool
  | PyInt int
  | PyStr string
  | PyUnicode string

text \<open>Truth value testing of \<^verbatim>\<open>and\<close>, \<^verbatim>\<open>or\<close>, \<^verbatim>\<open>if\<close>.\<close>

fun truthy :: "pyval \<Rightarrow> bool" where
  "truthy PyNone = False"
| "truthy (PyBool b) = b"
| "truthy (PyInt i) = (i \<noteq> 0)"
| "truthy (PyStr s) = (s \<noteq> [])"
| "truthy (PyUnicode s) = (s \<noteq> [])"

definition is_digit :: "char \<Rightarrow> bool" where
  "is_digit c = (c \<in> set ''0123456789'')"

definition is_space :: "char \<Rightarrow> bool" where
  "is_space c = (c \<in> set [CHR '' '', CHR 0x09, CHR 0x0A, CHR 0x0B, CHR 0x0C, CHR 0x0D])"

definition digit_val :: "char \<Rightarrow> nat" where
  "digit_val c = of_char c - 48"

definition digit_char :: "nat \<Rightarrow> char" where
  "digit_char n = ''0123456789'' ! n"

definition nat_of_digits :: "string \<Rightarrow> nat" where
  "nat_of_digits ds = foldl (\<lambda>a c. 10 * a + digit_val c) 0 ds"

definition strip :: "string \<Rightarrow> string" where
  "strip s = rev (dropWhile is_space (rev (dropWhile is_space s)))"

text \<open>
  \<^verbatim>\<open>int(s)\<close> and \<^verbatim>\<open>long(s)\<close> on a string, base 10, in Python 2.  Whitespace
  around the literal is dropped; one sign is allowed, and whitespace may follow it; then
  at least one decimal digit and nothing else.  The result is an integer of any size
  (\<^verbatim>\<open>int\<close> returns a \<^verbatim>\<open>long\<close> when the value does not fit a machine word).
  \<^verbatim>\<open>long\<close> also allows one \<^verbatim>\<open>L\<close> or \<^verbatim>\<open>l\<close> right after the digits.  Anything
  else raises \<^verbatim>\<open>ValueError\<close>.
\<close>

definition parse_decimal :: "string \<Rightarrow> error + int" where
  "parse_decimal t =
     (let signed = (t \<noteq> [] \<and> (hd t = CHR ''-'' \<or> hd t = CHR ''+''));
          neg = (t \<noteq> [] \<and> hd t = CHR ''-'');
          ds = (if signed then dropWhile is_space (tl t) else t)
      in if ds \<noteq> [] \<and> list_all is_digit ds
         then Inr (if neg then - int (nat_of_digits ds) else int (nat_of_digits ds))
         else Inl ValueError)"

definition int_py :: "string \<Rightarrow> error + int" where
  "int_py s = parse_decimal (strip s)"

definition long_py :: "string \<Rightarrow> error + int" where
  "long_py s =
     (let t = strip s
      in parse_decimal (if t \<noteq> [] \<and> (last t = CHR ''L'' \<or> last t = CHR ''l'') then butlast t else t))"

text \<open>\<^verbatim>\<open>str(n)\<close> of an integer: the decimal digits, with a minus sign when negative.\<close>

fun digits_of :: "nat \<Rightarrow> string" where
  "digits_of n = (if n < 10 then [digit_char n] else digits_of (n div 10) @ [digit_char (n mod 10)])"

declare digits_of.simps [simp del]

definition str_int :: "int \<Rightarrow> string" where
  "str_int i = (if i < 0 then CHR ''-'' # digits_of (nat (- i)) else digits_of (nat i))"

text \<open>The format \<^verbatim>\<open>%0wd\<close> of a non-negative integer: zero-padded to width \<open>w\<close>.\<close>

definition pad :: "nat \<Rightarrow> nat \<Rightarrow> string" where
  "pad w n = replicate (w - length (digits_of n)) CHR ''0'' @ digits_of n"

section \<open>Regular expressions\<close>

text \<open>
  The patterns of the module use literals, character classes, \<^verbatim>\<open>\d{n}\<close>, \<^verbatim>\<open>\d+\<close>,
  an optional group and named groups, in sequence.  \<open>regex\<close> is the syntax tree of such
  a pattern; \<open>rx_all\<close> is the backtracking matcher of \<^verbatim>\<open>re\<close>: it lists, in the order
  the engine tries them, every way the pattern matches at the start of the text, each with
  the groups captured and the text left over.  \<^verbatim>\<open>+\<close> and \<^verbatim>\<open>?\<close> are greedy.
\<close>

datatype regex =
    Eps
  | Lit char
  | Cls "char list"
  | Rep nat "char list"
  | Plus "char list"
  | Cat regex regex
  | Opt regex
  | Grp string regex

type_synonym groups = "string \<Rightarrow> string option"

fun rx_all :: "regex \<Rightarrow> groups \<Rightarrow> string \<Rightarrow> (groups \<times> string) list" where
  "rx_all Eps g s = [(g, s)]"
| "rx_all (Lit c) g s = (case s of [] \<Rightarrow> [] | x # xs \<Rightarrow> if x = c then [(g, xs)] else [])"
| "rx_all (Cls cs) g s = (case s of [] \<Rightarrow> [] | x # xs \<Rightarrow> if x \<in> set cs then [(g, xs)] else [])"
| "rx_all (Rep n cs) g s =
     (if n \<le> length s \<and> list_all (\<lambda>x. x \<in> set cs) (take n s) then [(g, drop n s)] else [])"
| "rx_all (Plus cs) g s =
     map (\<lambda>k. (g, drop k s)) (rev [1 ..< Suc (length (takeWhile (\<lambda>x. x \<in> set cs) s))])"
| "rx_all (Cat a b) g s = concat (map (\<lambda>(g', s'). rx_all b g' s') (rx_all a g s))"
| "rx_all (Opt a) g s = rx_all a g s @ [(g, s)]"
| "rx_all (Grp nm a) g s =
     map (\<lambda>(g', s'). (g'(nm \<mapsto> take (length s - length s') s), s')) (rx_all a g s)"

fun cats :: "regex list \<Rightarrow> regex" where
  "cats [] = Eps"
| "cats [r] = r"
| "cats (r # rs) = Cat r (cats rs)"

definition digit :: "char list" where
  "digit = ''0123456789''"

text \<open>
  A module-level name holds either a \<^verbatim>\<open>str\<close> with the source of a pattern (written
  here as the pattern's syntax tree) or the pattern object that \<^verbatim>\<open>re.compile\<close> makes
  of it.  Only the pattern object has a \<^verbatim>\<open>match\<close> method; looking \<^verbatim>\<open>match\<close> up on
  a \<^verbatim>\<open>str\<close> raises \<^verbatim>\<open>AttributeError\<close>.  \<^verbatim>\<open>match\<close> wants a string: \<^verbatim>\<open>None\<close>
  raises \<^verbatim>\<open>TypeError\<close>.  It returns the first way the pattern matches at the start of
  the text, or \<^verbatim>\<open>None\<close>.
\<close>

datatype pyobj = Str regex | Pattern regex

fun re_compile :: "pyobj \<Rightarrow> pyobj" where
  "re_compile (Str r) = Pattern r"
| "re_compile (Pattern r) = Pattern r"

definition re_match :: "regex \<Rightarrow> string option \<Rightarrow> error + groups option" where
  "re_match r txt =
     (case txt of
        None \<Rightarrow> Inl TypeError
      | Some s \<Rightarrow> (case rx_all r Map.empty s of [] \<Rightarrow> Inr None | (g, rest) # more \<Rightarrow> Inr (Some g)))"

fun match_method :: "pyobj \<Rightarrow> error + (string option \<Rightarrow> error + groups option)" where
  "match_method (Str r) = Inl AttributeError"
| "match_method (Pattern r) = Inr (re_match r)"

text \<open>
  The four pattern sources of the module, lines 37 to 40.  Each of the names
  \<^verbatim>\<open>_date_pattern\<close>, \<^verbatim>\<open>_time_pattern\<close>, \<^verbatim>\<open>_offset_pattern\<close> and
  \<^verbatim>\<open>_datetime_pattern\<close> is bound to a \<^verbatim>\<open>str\<close>, that is to \<open>Str\<close> of the tree below;
  \<^verbatim>\<open>+\<close> on two sources is \<open>Cat\<close> of their trees.
\<close>

definition date_pattern :: regex where
  "date_pattern = cats [Grp ''year'' (Rep 4 digit), Lit CHR ''-'',
                        Grp ''month'' (Rep 2 digit), Lit CHR ''-'',
                        Grp ''day'' (Rep 2 digit)]"

definition time_pattern :: regex where
  "time_pattern = cats [Grp ''hr'' (Rep 2 digit), Lit CHR '':'',
                        Grp ''min'' (Rep 2 digit), Lit CHR '':'',
                        Grp ''sec'' (Rep 2 digit),
                        Opt (Grp ''sec_frac'' (Cat (Lit CHR ''.'') (Plus digit)))]"

definition offset_pattern :: regex where
  "offset_pattern = cats [Grp ''tz_hr'' (Cat (Cls ''+-'') (Rep 2 digit)), Lit CHR '':'',
                          Grp ''tz_min'' (Rep 2 digit)]"

definition datetime_pattern :: regex where
  "datetime_pattern = Cat date_pattern (Cat (Cls ''T '') time_pattern)"

text \<open>The three compiled patterns, lines 42 to 44.\<close>

definition local_re :: pyobj where
  "local_re = re_compile (Str datetime_pattern)"

definition utc_re :: pyobj where
  "utc_re = re_compile (Str (Cat datetime_pattern (Lit CHR ''Z'')))"

definition offset_re :: pyobj where
  "offset_re = re_compile (Str (Cat datetime_pattern offset_pattern))"

section \<open>Calendar dates, datetimes and zones\<close>

text \<open>
  \<^verbatim>\<open>datetime.date\<close> and \<^verbatim>\<open>datetime.datetime\<close> of the standard library.  Their
  constructors check every field and raise \<^verbatim>\<open>ValueError\<close> outside the calendar.
  A zone is \<^verbatim>\<open>pytz.utc\<close> or a \<^verbatim>\<open>pytz\<close> fixed offset in minutes;
  \<^verbatim>\<open>pytz.FixedOffset(0)\<close> is \<^verbatim>\<open>pytz.utc\<close> itself, and an offset of a day or more
  raises \<^verbatim>\<open>ValueError\<close>.
\<close>

record date =
  year :: int
  month :: int
  day :: int

datatype tzinfo = UTC | FixedOffsetTZ int

record datetime = date +
  hour :: int
  minute :: int
  second :: int
  microsecond :: int
  tzinfo :: "tzinfo option"

definition is_leap :: "int \<Rightarrow> bool" where
  "is_leap y = (y mod 4 = 0 \<and> (y mod 100 \<noteq> 0 \<or> y mod 400 = 0))"

definition days_in_month :: "int \<Rightarrow> int \<Rightarrow> int" where
  "days_in_month y m =
     (if m = 2 then (if is_leap y then 29 else 28)
      else if m = 4 \<or> m = 6 \<or> m = 9 \<or> m = 11 then 30 else 31)"

definition valid_date_fields :: "int \<Rightarrow> int \<Rightarrow> int \<Rightarrow> bool" where
  "valid_date_fields y m d =
     (1 \<le> y \<and> y \<le> 9999 \<and> 1 \<le> m \<and> m \<le> 12 \<and> 1 \<le> d \<and> d \<le> days_in_month y m)"

definition valid_time_fields :: "int \<Rightarrow> int \<Rightarrow> int \<Rightarrow> int \<Rightarrow> bool" where
  "valid_time_fields h mi s us =
     (0 \<le> h \<and> h \<le> 23 \<and> 0 \<le> mi \<and> mi \<le> 59 \<and> 0 \<le> s \<and> s \<le> 59 \<and> 0 \<le> us \<and> us \<le> 999999)"

definition date_new :: "int \<Rightarrow> int \<Rightarrow> int \<Rightarrow> error + date" where
  "date_new y m d =
     (if valid_date_fields y m d then Inr \<lparr>year = y, month = m, day = d\<rparr> else Inl ValueError)"

definition datetime_new ::
  "int \<Rightarrow> int \<Rightarrow> int \<Rightarrow> int \<Rightarrow> int \<Rightarrow> int \<Rightarrow> int \<Rightarrow> tzinfo option \<Rightarrow> error + datetime" where
  "datetime_new y m d h mi s us tz =
     (if valid_date_fields y m d \<and> valid_time_fields h mi s us
      then Inr \<lparr>year = y, month = m, day = d, hour = h, minute = mi, second = s,
                microsecond = us, tzinfo = tz\<rparr>
      else Inl ValueError)"

definition FixedOffset :: "int \<Rightarrow> error + tzinfo" where
  "FixedOffset offset =
     (if offset = 0 then Inr UTC
      else if 1440 \<le> \<bar>offset\<bar> then Inl ValueError
      else Inr (FixedOffsetTZ offset))"

fun utcoffset :: "tzinfo \<Rightarrow> int" where
  "utcoffset UTC = 0"
| "utcoffset (FixedOffsetTZ m) = m"

text \<open>The objects that exist: every field within the range its constructor checks.\<close>

definition valid_date :: "date \<Rightarrow> bool" where
  "valid_date d = valid_date_fields (year d) (month d) (day d)"

fun valid_tz :: "tzinfo option \<Rightarrow> bool" where
  "valid_tz None = True"
| "valid_tz (Some UTC) = True"
| "valid_tz (Some (FixedOffsetTZ m)) = (m \<noteq> 0 \<and> \<bar>m\<bar> < 1440)"

definition valid_datetime :: "datetime \<Rightarrow> bool" where
  "valid_datetime t =
     (valid_date_fields (year t) (month t) (day t)
      \<and> valid_time_fields (hour t) (minute t) (second t) (microsecond t)
      \<and> valid_tz (tzinfo t))"

text \<open>
  \<^verbatim>\<open>isoformat\<close>: \<^verbatim>\<open>YYYY-MM-DD\<close> for a date; for a datetime the date, the separator,
  \<^verbatim>\<open>HH:MM:SS\<close>, then \<^verbatim>\<open>.ffffff\<close> when the microsecond is not zero, then the offset
  of the zone as \<^verbatim>\<open>+HH:MM\<close> or \<^verbatim>\<open>-HH:MM\<close> when there is a zone.
\<close>

definition date_isoformat :: "'a date_scheme \<Rightarrow> string" where
  "date_isoformat d =
     pad 4 (nat (year d)) @ ''-'' @ pad 2 (nat (month d)) @ ''-'' @ pad 2 (nat (day d))"

definition format_utcoffset :: "int \<Rightarrow> string" where
  "format_utcoffset off =
     (if off < 0 then ''-'' else ''+'')
     @ pad 2 (nat (\<bar>off\<bar> div 60)) @ '':'' @ pad 2 (nat (\<bar>off\<bar> mod 60))"

definition datetime_isoformat :: "char \<Rightarrow> datetime \<Rightarrow> string" where
  "datetime_isoformat sep t =
     date_isoformat t @ [sep]
     @ pad 2 (nat (hour t)) @ '':'' @ pad 2 (nat (minute t)) @ '':'' @ pad 2 (nat (second t))
     @ (if microsecond t \<noteq> 0 then ''.'' @ pad 6 (nat (microsecond t)) else [])
     @ (case tzinfo t of None \<Rightarrow> [] | Some tz \<Rightarrow> format_utcoffset (utcoffset tz))"

section \<open>Double-precision arithmetic\<close>

text \<open>
  \<^verbatim>\<open>float\<close> is an IEEE 754 binary64 number.  The values met here are finite and not
  negative, so a double is written as the rational it denotes.  \<open>binary64 q\<close> is the
  double nearest to \<open>q\<close> (ties to the even significand, 53 bits, least exponent
  \<open>-1074\<close>), for \<open>0 \<le> q\<close> below the overflow threshold: the result of a correctly
  rounded conversion or operation whose exact value is \<open>q\<close>.
\<close>

definition ilog2 :: "rat \<Rightarrow> int" where
  "ilog2 q =
     (let (a, b) = quotient_of q; k = bitlen a - bitlen b
      in if 2 powi k \<le> q then k else k - 1)"

definition round_half_even :: "rat \<Rightarrow> int" where
  "round_half_even q =
     (let f = \<lfloor>q\<rfloor>; r = q - of_int f
      in if r < 1 / 2 then f else if 1 / 2 < r then f + 1 else if even f then f else f + 1)"

definition binary64 :: "rat \<Rightarrow> rat" where
  "binary64 q =
     (if q \<le> 0 then 0
      else let e = max (ilog2 q - 52) (- 1074)
           in of_int (round_half_even (q / 2 powi e)) * 2 powi e)"

text \<open>
  \<^verbatim>\<open>float(fields.get("sec_frac", 0))\<close>: the group is either absent, and then
  \<^verbatim>\<open>groupdict(0)\<close> has put the integer 0 in its place, or it is the text that
  \<^verbatim>\<open>\.\d+\<close> matched, a point followed by decimal digits.
\<close>

definition float_sec_frac :: "string option \<Rightarrow> rat" where
  "float_sec_frac f =
     (case f of
        None \<Rightarrow> 0
      | Some s \<Rightarrow> binary64 (of_nat (nat_of_digits (tl s)) / 10 ^ length (tl s)))"

text \<open>
  \<^verbatim>\<open>int(x * 10 ** 6)\<close> for a double \<open>x\<close>: the product is rounded to a double, and
  \<^verbatim>\<open>int\<close> drops the fraction of that double.
\<close>

definition microsec_of :: "rat \<Rightarrow> int" where
  "microsec_of x = \<lfloor>binary64 (x * 10 ^ 6)\<rfloor>"

section \<open>Elements and the collaborators of the codecs\<close>

text \<open>
  An element of the markup tree: a qualified name, attributes, optional text, children.
  \<^verbatim>\<open>etree.SubElement(parent, tag)\<close> appends a new child to the parent; the model
  returns the parent so changed.
\<close>

datatype element =
  Element (etag: string) (eattrib: "(string \<times> string) list") (etext: "string option")
          (echildren: "element list")

definition ns_xsd :: string where
  "ns_xsd = ''http://www.w3.org/2001/XMLSchema''"

definition ns_xsi :: string where
  "ns_xsi = ''http://www.w3.org/2001/XMLSchema-instance''"

definition qname :: "string \<Rightarrow> string \<Rightarrow> string" where
  "qname ns name = ''{'' @ ns @ ''}'' @ name"

definition append_child :: "element \<Rightarrow> element \<Rightarrow> element" where
  "append_child parent child =
     Element (etag parent) (eattrib parent) (etext parent) (echildren parent @ [child])"

text \<open>
  Modelled from the spec: \<^verbatim>\<open>string_to_xml\<close>, \<^verbatim>\<open>nillable_value\<close> and
  \<^verbatim>\<open>nillable_element\<close> are imported from \<^verbatim>\<open>soaplib.serializers\<close>, which is not
  among the sources.  By sections 4.1 and 4.2 of the specification, writing appends a
  child named \<^verbatim>\<open>{targetNamespace}name\<close> whose content is the text; a writer wrapped
  as nillable writes a child with the nil indicator for an absent value and calls the
  kind's own writer otherwise; a reader wrapped as nillable returns absence for an
  element that carries the nil indicator and calls the kind's own reader otherwise.
\<close>

definition string_to_xml :: "string \<Rightarrow> string \<Rightarrow> element \<Rightarrow> string \<Rightarrow> element" where
  "string_to_xml v tns parent_elt name =
     append_child parent_elt (Element (qname tns name) [] (Some v) [])"

definition nil_elt :: "string \<Rightarrow> string \<Rightarrow> element" where
  "nil_elt tns name = Element (qname tns name) [(qname ns_xsi ''nil'', ''true'')] None []"

definition nillable_value ::
  "('a \<Rightarrow> string \<Rightarrow> element \<Rightarrow> string \<Rightarrow> error + element)
   \<Rightarrow> 'a option \<Rightarrow> string \<Rightarrow> element \<Rightarrow> string \<Rightarrow> error + element" where
  "nillable_value func v tns parent_elt name =
     (case v of
        None \<Rightarrow> Inr (append_child parent_elt (nil_elt tns name))
      | Some x \<Rightarrow> func x tns parent_elt name)"

definition is_nil :: "element \<Rightarrow> bool" where
  "is_nil e = (map_of (eattrib e) (qname ns_xsi ''nil'') \<noteq> None)"

definition nillable_element :: "(element \<Rightarrow> error + 'a) \<Rightarrow> element \<Rightarrow> error + 'a option" where
  "nillable_element func e =
     (if is_nil e then Inr None
      else case func e of Inl err \<Rightarrow> Inl err | Inr v \<Rightarrow> Inr (Some v))"

text \<open>Sequencing of calls that can raise: the first exception ends the computation.\<close>

definition try_bind :: "error + 'a \<Rightarrow> ('a \<Rightarrow> error + 'b) \<Rightarrow> error + 'b" where
  "try_bind r k = (case r of Inl err \<Rightarrow> Inl err | Inr v \<Rightarrow> k v)"

text \<open>\<^verbatim>\<open>"%s" % text\<close>.\<close>

definition fmt_text :: "string option \<Rightarrow> string" where
  "fmt_text t = (case t of None \<Rightarrow> ''None'' | Some s \<Rightarrow> s)"

text \<open>
  \<^verbatim>\<open>int(fields[x])\<close> where \<^verbatim>\<open>fields = match.groupdict(0)\<close>: a group that took no
  part in the match holds the default 0.  \<^verbatim>\<open>int(match.group(x))\<close>: such a group is
  \<^verbatim>\<open>None\<close>, and \<^verbatim>\<open>int(None)\<close> raises \<^verbatim>\<open>TypeError\<close>.
\<close>

definition int_field :: "groups \<Rightarrow> string \<Rightarrow> error + int" where
  "int_field flds x = (case flds x of None \<Rightarrow> Inr 0 | Some s \<Rightarrow> int_py s)"

definition int_group :: "groups \<Rightarrow> string \<Rightarrow> error + int" where
  "int_group m x = (case m x of None \<Rightarrow> Inl TypeError | Some s \<Rightarrow> int_py s)"

section \<open>The codecs\<close>

subsection \<open>Date\<close>

text \<open>
  \<^verbatim>\<open>Date.to_xml\<close> writes \<^verbatim>\<open>value.isoformat()\<close>.  \<^verbatim>\<open>Date.from_xml\<close> reads the
  text, then evaluates \<^verbatim>\<open>_date_pattern.match(text)\<close>: the name \<^verbatim>\<open>_date_pattern\<close>
  is the pattern source of line 37, a \<^verbatim>\<open>str\<close>; the module never compiles it.
\<close>

definition Date_to_xml_raw :: "date \<Rightarrow> string \<Rightarrow> element \<Rightarrow> string \<Rightarrow> error + element" where
  "Date_to_xml_raw v tns parent_elt name = Inr (string_to_xml (date_isoformat v) tns parent_elt name)"

definition Date_to_xml :: "date option \<Rightarrow> string \<Rightarrow> element \<Rightarrow> string \<Rightarrow> error + element" where
  "Date_to_xml = nillable_value Date_to_xml_raw"

definition Date_parse_date :: "groups \<Rightarrow> error + date" where
  "Date_parse_date flds =
     try_bind (int_field flds ''year'') (\<lambda>y.
     try_bind (int_field flds ''month'') (\<lambda>m.
     try_bind (int_field flds ''day'') (\<lambda>d.
     date_new y m d)))"

definition Date_from_xml_raw :: "element \<Rightarrow> error + date" where
  "Date_from_xml_raw e =
     (let txt = etext e in
      try_bind (match_method (Str date_pattern)) (\<lambda>match_fn.
      try_bind (match_fn txt) (\<lambda>mt.
      case mt of
        None \<Rightarrow> Inl (Exception_msg (''Date ['' @ fmt_text txt @ ''] not in known format''))
      | Some g \<Rightarrow> Date_parse_date g)))"

definition Date_from_xml :: "element \<Rightarrow> error + date option" where
  "Date_from_xml = nillable_element Date_from_xml_raw"

subsection \<open>DateTime\<close>

definition DateTime_to_xml_raw ::
  "datetime \<Rightarrow> string \<Rightarrow> element \<Rightarrow> string \<Rightarrow> error + element" where
  "DateTime_to_xml_raw v tns parent_elt name =
     Inr (string_to_xml (datetime_isoformat CHR ''T'' v) tns parent_elt name)"

definition DateTime_to_xml ::
  "datetime option \<Rightarrow> string \<Rightarrow> element \<Rightarrow> string \<Rightarrow> error + element" where
  "DateTime_to_xml = nillable_value DateTime_to_xml_raw"

definition parse_date :: "groups \<Rightarrow> tzinfo option \<Rightarrow> error + datetime" where
  "parse_date flds tz =
     try_bind (int_field flds ''year'') (\<lambda>y.
     try_bind (int_field flds ''month'') (\<lambda>m.
     try_bind (int_field flds ''day'') (\<lambda>d.
     try_bind (int_field flds ''hr'') (\<lambda>hr.
     try_bind (int_field flds ''min'') (\<lambda>mi.
     try_bind (int_field flds ''sec'') (\<lambda>sec.
     let microsec = microsec_of (float_sec_frac (flds ''sec_frac''))
     in datetime_new y m d hr mi sec microsec tz))))))"

definition DateTime_from_xml_raw :: "element \<Rightarrow> error + datetime" where
  "DateTime_from_xml_raw e =
     (let txt = etext e in
      try_bind (match_method utc_re) (\<lambda>utc_match.
      try_bind (utc_match txt) (\<lambda>m1.
      case m1 of
        Some g \<Rightarrow> parse_date g (Some UTC)
      | None \<Rightarrow>
          try_bind (match_method offset_re) (\<lambda>offset_match.
          try_bind (offset_match txt) (\<lambda>m2.
          case m2 of
            Some g \<Rightarrow>
              try_bind (int_group g ''tz_hr'') (\<lambda>tz_hr.
              try_bind (int_group g ''tz_min'') (\<lambda>tz_min.
              try_bind (FixedOffset (tz_hr * 60 + tz_min)) (\<lambda>tz.
              parse_date g (Some tz))))
          | None \<Rightarrow>
              try_bind (match_method local_re) (\<lambda>local_match.
              try_bind (local_match txt) (\<lambda>m3.
              case m3 of
                None \<Rightarrow>
                  Inl (Exception_msg (''DateTime ['' @ fmt_text txt @ ''] not in known format''))
              | Some g \<Rightarrow> parse_date g None)))))))"

definition DateTime_from_xml :: "element \<Rightarrow> error + datetime option" where
  "DateTime_from_xml = nillable_element DateTime_from_xml_raw"

subsection \<open>Integer\<close>

text \<open>
  \<^verbatim>\<open>int(i)\<close> and \<^verbatim>\<open>long(i)\<close> on the element's text; on \<^verbatim>\<open>None\<close> both raise
  \<^verbatim>\<open>TypeError\<close>.  Whatever \<^verbatim>\<open>int\<close> raises is caught and \<^verbatim>\<open>long\<close> is tried.
\<close>

definition int_text :: "string option \<Rightarrow> error + int" where
  "int_text t = (case t of None \<Rightarrow> Inl TypeError | Some s \<Rightarrow> int_py s)"

definition long_text :: "string option \<Rightarrow> error + int" where
  "long_text t = (case t of None \<Rightarrow> Inl TypeError | Some s \<Rightarrow> long_py s)"

definition Integer_from_xml_raw :: "element \<Rightarrow> error + int" where
  "Integer_from_xml_raw e =
     (let i = etext e in
      case int_text i of Inr v \<Rightarrow> Inr v | Inl err \<Rightarrow> long_text i)"

definition Integer_from_xml :: "element \<Rightarrow> error + int option" where
  "Integer_from_xml = nillable_element Integer_from_xml_raw"

definition Integer_to_xml_raw :: "int \<Rightarrow> string \<Rightarrow> element \<Rightarrow> string \<Rightarrow> error + element" where
  "Integer_to_xml_raw v tns parent_elt name = Inr (string_to_xml (str_int v) tns parent_elt name)"

definition Integer_to_xml :: "int option \<Rightarrow> string \<Rightarrow> element \<Rightarrow> string \<Rightarrow> error + element" where
  "Integer_to_xml = nillable_value Integer_to_xml_raw"

subsection \<open>Boolean\<close>

text \<open>
  \<^verbatim>\<open>s and s.lower()[0] == 't'\<close>: when \<^verbatim>\<open>s\<close> is false in a boolean context
  (\<^verbatim>\<open>None\<close> or the empty string) the expression is \<^verbatim>\<open>s\<close> itself; otherwise it is
  the comparison.  Indexing an empty string raises \<^verbatim>\<open>IndexError\<close>.
\<close>

definition lower_char :: "char \<Rightarrow> char" where
  "lower_char c =
     (if of_char CHR ''A'' \<le> (of_char c :: nat) \<and> (of_char c :: nat) \<le> of_char CHR ''Z''
      then char_of (of_char c + (32 :: nat)) else c)"

definition lower :: "string \<Rightarrow> string" where
  "lower s = map lower_char s"

definition Boolean_from_xml_raw :: "element \<Rightarrow> error + pyval" where
  "Boolean_from_xml_raw e =
     (let s = etext e in
      case s of
        None \<Rightarrow> Inr PyNone
      | Some t \<Rightarrow>
          if t = [] then Inr (PyStr t)
          else (case lower t of
                  [] \<Rightarrow> Inl IndexError
                | c # cs \<Rightarrow> Inr (PyBool (c = CHR ''t''))))"

definition Boolean_from_xml :: "element \<Rightarrow> error + pyval option" where
  "Boolean_from_xml = nillable_element Boolean_from_xml_raw"

subsection \<open>String\<close>

text \<open>
  The text of an element is a sequence of code points; a \<open>char\<close> stands for a code
  point below 256, those from 128 on being the ones outside ASCII.  In Python 2 the
  tree library hands out text of ASCII only as a \<^verbatim>\<open>str\<close> and any other text as
  \<^verbatim>\<open>unicode\<close>.  \<^verbatim>\<open>str(u)\<close> of a \<^verbatim>\<open>unicode\<close> encodes with the default codec, ASCII,
  and raises \<^verbatim>\<open>UnicodeEncodeError\<close> on any other code point.  \<^verbatim>\<open>encode\<close> called on a
  \<^verbatim>\<open>str\<close> first decodes it with the default codec, raising \<^verbatim>\<open>UnicodeDecodeError\<close>
  on a byte outside ASCII, then encodes the result.
\<close>

definition is_ascii :: "char \<Rightarrow> bool" where
  "is_ascii c = ((of_char c :: nat) < 128)"

definition utf8_char :: "char \<Rightarrow> string" where
  "utf8_char c =
     (if is_ascii c then [c]
      else [char_of (192 + (of_char c :: nat) div 64), char_of (128 + (of_char c :: nat) mod 64)])"

definition utf8 :: "string \<Rightarrow> string" where
  "utf8 s = concat (map utf8_char s)"

definition text_value :: "string \<Rightarrow> pyval" where
  "text_value s = (if list_all is_ascii s then PyStr s else PyUnicode s)"

fun py_str :: "pyval \<Rightarrow> error + pyval" where
  "py_str (PyStr s) = Inr (PyStr s)"
| "py_str (PyUnicode s) = (if list_all is_ascii s then Inr (PyStr s) else Inl UnicodeEncodeError)"
| "py_str PyNone = Inr (PyStr ''None'')"
| "py_str (PyBool b) = Inr (PyStr (if b then ''True'' else ''False''))"
| "py_str (PyInt i) = Inr (PyStr (str_int i))"

fun encode :: "pyval \<Rightarrow> error + pyval" where
  "encode (PyStr s) = (if list_all is_ascii s then Inr (PyStr (utf8 s)) else Inl UnicodeDecodeError)"
| "encode (PyUnicode s) = Inr (PyStr (utf8 s))"
| "encode v = Inl AttributeError"

text \<open>
  \<^verbatim>\<open>u = element.text or ""\<close>, then inside \<^verbatim>\<open>try\<close> the assignment \<^verbatim>\<open>u = str(u)\<close>
  and \<^verbatim>\<open>return u.encode(string_encoding)\<close>; the bare \<^verbatim>\<open>except\<close> returns \<^verbatim>\<open>u\<close>
  as it is bound when the exception arrives.
\<close>

definition String_from_xml_raw :: "element \<Rightarrow> error + pyval" where
  "String_from_xml_raw e =
     (let u = (case etext e of None \<Rightarrow> PyStr [] | Some s \<Rightarrow> if s = [] then PyStr [] else text_value s)
      in case py_str u of
           Inl err \<Rightarrow> Inr u
         | Inr u' \<Rightarrow> (case encode u' of Inl err \<Rightarrow> Inr u' | Inr r \<Rightarrow> Inr r))"

definition String_from_xml :: "element \<Rightarrow> error + pyval option" where
  "String_from_xml = nillable_element String_from_xml_raw"

subsection \<open>The restriction of a bound String type\<close>

text \<open>
  A bound String type is a class with its \<^verbatim>\<open>Attributes\<close>.  \<^verbatim>\<open>min_len\<close> and
  \<^verbatim>\<open>max_len\<close> hold an integer or a string (the default of \<^verbatim>\<open>max_len\<close> is the string
  \<^verbatim>\<open>"unbounded"\<close>); \<^verbatim>\<open>==\<close> between an integer and a string is false.  The field
  \<open>type_name\<close> names the class, the identity under which a registry knows it.  The field
  \<open>simple_type_default\<close> is the value of \<^verbatim>\<open>SimpleType.is_default(cls)\<close>, the
  parent's test on the attributes it owns, which is not among the sources.
\<close>

datatype len_attr = LenInt int | LenStr string

fun str_len :: "len_attr \<Rightarrow> string" where
  "str_len (LenInt i) = str_int i"
| "str_len (LenStr s) = s"

record string_cls =
  type_name :: string
  simple_type_default :: bool
  min_len :: len_attr
  max_len :: len_attr
  pattern :: "string option"

definition String_Attributes :: string_cls where
  "String_Attributes =
     \<lparr>type_name = ''string'', simple_type_default = True, min_len = LenInt 0,
      max_len = LenStr ''unbounded'', pattern = None\<rparr>"

definition is_default :: "string_cls \<Rightarrow> bool" where
  "is_default cls =
     (simple_type_default cls
      \<and> min_len cls = min_len String_Attributes
      \<and> max_len cls = max_len String_Attributes
      \<and> pattern cls = pattern String_Attributes)"

text \<open>
  Modelled from the spec: the registry class behind \<^verbatim>\<open>schema_entries\<close> and
  \<^verbatim>\<open>get_restriction_tag\<close> of \<^verbatim>\<open>SimpleType\<close> are not among the sources.  By sections
  3 and 4.4 of the specification the registry records, per type, whether its restriction
  has been emitted, and emitting creates one restriction node for the type.  The registry
  is the list of the types registered, each with its restriction node, in the order of
  emission; \<open>get_restriction_tag\<close> registers the type with a new, empty restriction node
  and returns the place of that node, through which the facets are then appended.
\<close>

record schema_entries =
  simple_types :: "(string_cls \<times> element) list"

definition has_class :: "schema_entries \<Rightarrow> string_cls \<Rightarrow> bool" where
  "has_class se cls = (cls \<in> set (map fst (simple_types se)))"

definition get_restriction_tag :: "string_cls \<Rightarrow> schema_entries \<Rightarrow> schema_entries \<times> nat" where
  "get_restriction_tag cls se =
     (se\<lparr>simple_types := simple_types se @ [(cls, Element (qname ns_xsd ''restriction'') [] None [])]\<rparr>,
      length (simple_types se))"

text \<open>
  \<^verbatim>\<open>etree.SubElement(restriction, tag)\<close> followed by \<^verbatim>\<open>set('value', v)\<close> on the new
  child: the restriction node at place \<open>i\<close> of the registry gets one more facet.
\<close>

definition add_facet :: "nat \<Rightarrow> string \<Rightarrow> string \<Rightarrow> schema_entries \<Rightarrow> schema_entries" where
  "add_facet i facet v se =
     (if i < length (simple_types se)
      then se\<lparr>simple_types :=
              (simple_types se)[i := (fst (simple_types se ! i),
                 append_child (snd (simple_types se ! i))
                   (Element (qname ns_xsd facet) [(''value'', v)] None []))]\<rparr>
      else se)"

definition add_to_schema :: "string_cls \<Rightarrow> schema_entries \<Rightarrow> schema_entries" where
  "add_to_schema cls schema_entries =
     (if \<not> has_class schema_entries cls \<and> \<not> is_default cls then
        let (se1, restriction) = get_restriction_tag cls schema_entries;
            se2 = (if min_len cls = max_len cls
                   then add_facet restriction ''length'' (str_len (min_len cls)) se1
                   else let se1a = (if min_len cls \<noteq> min_len String_Attributes
                                    then add_facet restriction ''minLength'' (str_len (min_len cls)) se1
                                    else se1)
                        in if max_len cls \<noteq> max_len String_Attributes
                           then add_facet restriction ''maxLength'' (str_len (max_len cls)) se1a
                           else se1a)
        in if pattern cls \<noteq> pattern String_Attributes
           then (case pattern cls of
                   None \<Rightarrow> se2
                 | Some p \<Rightarrow> add_facet restriction ''pattern'' p se2)
           else se2
      else schema_entries)"

text \<open>
  Modelled from the spec: \<^verbatim>\<open>SimpleType.__new__\<close>, which builds the bound type from
  the keywords, is not among the sources.  \<^verbatim>\<open>String.__new__\<close> turns its one positional
  argument into the keyword \<^verbatim>\<open>max_len\<close>, so \<^verbatim>\<open>String(n)\<close> is
  \<^verbatim>\<open>String(max_len=n)\<close>; by section 3 of the specification the bound type has the
  attributes given and the defaults for the rest.
\<close>

definition String_max_len :: "int \<Rightarrow> string_cls" where
  "String_max_len n = String_Attributes\<lparr>max_len := LenInt n\<rparr>"

text \<open>The restriction fragments of the schema document that belong to a type.\<close>

definition restrictions_of :: "schema_entries \<Rightarrow> string_cls \<Rightarrow> element list" where
  "restrictions_of se cls = map snd (filter (\<lambda>p. fst p = cls) (simple_types se))"

definition fresh_entries :: schema_entries where
  "fresh_entries = \<lparr>simple_types = []\<rparr>"

section \<open>The grammar of a pattern\<close>

text \<open>
  The texts that a pattern matches in full, given by the structure of the pattern and
  independent of any matching strategy.  A text has a prefix in the grammar of a pattern
  when it is some text of \<open>lang\<close> followed by anything.
\<close>

fun lang :: "regex \<Rightarrow> string set" where
  "lang Eps = {[]}"
| "lang (Lit c) = {[c]}"
| "lang (Cls cs) = {[x] | x. x \<in> set cs}"
| "lang (Rep n cs) = {w. length w = n \<and> set w \<subseteq> set cs}"
| "lang (Plus cs) = {w. w \<noteq> [] \<and> set w \<subseteq> set cs}"
| "lang (Cat a b) = {u @ v | u v. u \<in> lang a \<and> v \<in> lang b}"
| "lang (Opt a) = insert [] (lang a)"
| "lang (Grp nm a) = lang a"

fun grammar :: "pyobj \<Rightarrow> string set" where
  "grammar (Str r) = lang r"
| "grammar (Pattern r) = lang r"

text \<open>The pattern matches at the start of the text: \<^verbatim>\<open>match\<close> does not return \<^verbatim>\<open>None\<close>.\<close>

definition matches_prefix :: "regex \<Rightarrow> string \<Rightarrow> bool" where
  "matches_prefix r s = (case rx_all r Map.empty s of [] \<Rightarrow> False | x # xs \<Rightarrow> True)"

text \<open>
  The failure that the readers of dates and datetimes raise themselves, an
  \<^verbatim>\<open>Exception\<close> with the message "not in known format".
\<close>

definition is_format_error :: "error + 'a \<Rightarrow> bool" where
  "is_format_error r = (case r of Inl (Exception_msg m) \<Rightarrow> True | _ \<Rightarrow> False)"

text \<open>
  The conversion as the specification words it, \<^verbatim>\<open>round(frac * 1_000_000)\<close>, on the
  same doubles: the product rounded to the nearest integer, where the code drops its
  fraction.
\<close>

definition spec_microsec :: "string \<Rightarrow> int" where
  "spec_microsec f = round (binary64 (float_sec_frac (Some f) * 10 ^ 6))"

section \<open>The shape of a datetime text\<close>

text \<open>
  Names for the parts of a text of the form \<^verbatim>\<open>YYYY-MM-DD?HH:MM:SS\<close>, for the groups
  that the datetime pattern captures on it, and for the optional fraction after it.
\<close>

definition digits_n :: "nat \<Rightarrow> string \<Rightarrow> bool" where
  "digits_n n ds = (length ds = n \<and> list_all is_digit ds)"

definition dt_text :: "string \<Rightarrow> string \<Rightarrow> string \<Rightarrow> char \<Rightarrow> string \<Rightarrow> string \<Rightarrow> string \<Rightarrow> string" where
  "dt_text y m d sep h mi s = y @ ''-'' @ m @ ''-'' @ d @ [sep] @ h @ '':'' @ mi @ '':'' @ s"

definition dt_groups :: "string \<Rightarrow> string \<Rightarrow> string \<Rightarrow> string \<Rightarrow> string \<Rightarrow> string \<Rightarrow> groups" where
  "dt_groups y m d h mi s =
     [''year'' \<mapsto> y, ''month'' \<mapsto> m, ''day'' \<mapsto> d, ''hr'' \<mapsto> h, ''min'' \<mapsto> mi, ''sec'' \<mapsto> s]"

definition starts_digit_or_dot :: "string \<Rightarrow> bool" where
  "starts_digit_or_dot s = (s \<noteq> [] \<and> (is_digit (hd s) \<or> hd s = CHR ''.''))"

definition frac_part :: "string \<Rightarrow> groups \<Rightarrow> groups \<Rightarrow> bool" where
  "frac_part F G G' =
     ((F = [] \<and> G' = G)
      \<or> (\<exists>fs. F = CHR ''.'' # fs \<and> fs \<noteq> [] \<and> list_all is_digit fs \<and> G' = G(''sec_frac'' \<mapsto> F)))"

text \<open>
  What can follow the seconds.  \<open>is_frac F\<close>: \<open>F\<close> is empty or a point with at least
  one digit.  \<open>starts_frac r\<close>: \<open>r\<close> begins with a point and a digit, so that a
  fraction can be read from it.  \<open>frac_end F r\<close>: the fraction \<open>F\<close> is all of the
  fraction that the text \<open>F @ r\<close> begins with.  \<open>starts_offset r\<close>: \<open>r\<close> begins
  with a sign, two digits, a colon and two digits.
\<close>

definition is_frac :: "string \<Rightarrow> bool" where
  "is_frac F = (F = [] \<or> (hd F = CHR ''.'' \<and> tl F \<noteq> [] \<and> list_all is_digit (tl F)))"

definition starts_frac :: "string \<Rightarrow> bool" where
  "starts_frac r = (case r of c # d # r' \<Rightarrow> c = CHR ''.'' \<and> is_digit d | _ \<Rightarrow> False)"

definition frac_end :: "string \<Rightarrow> string \<Rightarrow> bool" where
  "frac_end F r = (if F = [] then \<not> starts_frac r else r = [] \<or> \<not> is_digit (hd r))"

definition starts_offset :: "string \<Rightarrow> bool" where
  "starts_offset r =
     (case r of
        [] \<Rightarrow> False
      | c # r1 \<Rightarrow>
          (c = CHR ''+'' \<or> c = CHR ''-'') \<and> digits_n 2 (take 2 r1)
          \<and> (case drop 2 r1 of [] \<Rightarrow> False | c2 # r2 \<Rightarrow> c2 = CHR '':'' \<and> digits_n 2 (take 2 r2)))"

text \<open>
  The microsecond that the reader computes from the fraction \<open>F\<close> of a text, zero when
  there is none.
\<close>

definition microsec_text :: "string \<Rightarrow> int" where
  "microsec_text F = microsec_of (float_sec_frac (if F = [] then None else Some F))"

definition frac_text :: "int \<Rightarrow> string" where
  "frac_text us = (if us \<noteq> 0 then ''.'' @ pad 6 (nat us) else [])"

text \<open>
  The two conditions under which a written datetime is read back unchanged.  The
  microsecond is zero, so that no fraction is written, or the double-precision
  conversion of the six digits written gives the microsecond back.  The zone is absent,
  UTC, or a fixed offset that is positive or a whole number of hours.
\<close>

definition frac_survives :: "int \<Rightarrow> bool" where
  "frac_survives us = (us = 0 \<or> microsec_of (float_sec_frac (Some (''.'' @ pad 6 (nat us)))) = us)"

definition offset_survives :: "tzinfo option \<Rightarrow> bool" where
  "offset_survives z = (case z of Some (FixedOffsetTZ off) \<Rightarrow> 0 \<le> off \<or> off mod 60 = 0 | _ \<Rightarrow> True)"

section \<open>Decimal text of integers\<close>

lemma lt10_cases: "n < 10 \<Longrightarrow> n \<in> {0, 1, 2, 3, 4, 5, 6, 7, 8, 9 :: nat}"
  by auto

lemma is_digit_digit_char: "n < 10 \<Longrightarrow> is_digit (digit_char n)"
  unfolding is_digit_def digit_char_def by (rule nth_mem) simp

lemma digit_val_digit_char: "n < 10 \<Longrightarrow> digit_val (digit_char n) = n"
  by (drule lt10_cases) (auto simp: digit_val_def digit_char_def)

lemma is_digit_not_space: "is_digit c \<Longrightarrow> \<not> is_space c"
  by (auto simp: is_digit_def is_space_def)

lemma is_digit_in_digit: "(c \<in> set digit) = is_digit c"
  by (simp add: is_digit_def digit_def)

lemma digits_of_nonempty: "digits_of n \<noteq> []"
  by (subst digits_of.simps) simp

lemma digits_of_all_digits: "list_all is_digit (digits_of n)"
proof (induction n rule: digits_of.induct)
  case (1 n)
  show ?case
  proof (cases "n < 10")
    case True
    then show ?thesis by (subst digits_of.simps) (simp add: is_digit_digit_char)
  next
    case False
    then have "list_all is_digit (digits_of (n div 10))" using 1 by simp
    moreover have "is_digit (digit_char (n mod 10))" by (simp add: is_digit_digit_char)
    ultimately show ?thesis using False by (subst digits_of.simps) simp
  qed
qed

lemma nat_of_digits_snoc: "nat_of_digits (xs @ [c]) = 10 * nat_of_digits xs + digit_val c"
  by (simp add: nat_of_digits_def)

lemma nat_of_digits_digits_of: "nat_of_digits (digits_of n) = n"
proof (induction n rule: digits_of.induct)
  case (1 n)
  show ?case
  proof (cases "n < 10")
    case True
    then show ?thesis
      by (subst digits_of.simps) (simp add: nat_of_digits_def digit_val_digit_char)
  next
    case False
    then have "nat_of_digits (digits_of (n div 10)) = n div 10" using 1 by simp
    then show ?thesis using False
      by (subst digits_of.simps) (simp add: nat_of_digits_snoc digit_val_digit_char)
  qed
qed

lemma strip_id: "s \<noteq> [] \<Longrightarrow> \<not> is_space (hd s) \<Longrightarrow> \<not> is_space (last s) \<Longrightarrow> strip s = s"
proof -
  assume a: "s \<noteq> []" "\<not> is_space (hd s)" "\<not> is_space (last s)"
  have dw: "dropWhile is_space xs = xs" if "xs \<noteq> []" "\<not> is_space (hd xs)" for xs
    using that by (cases xs) auto
  have 1: "dropWhile is_space s = s" using a by (simp add: dw)
  have "hd (rev s) = last s" using a by (simp add: hd_rev)
  then have 2: "dropWhile is_space (rev s) = rev s" using a by (simp add: dw)
  show ?thesis by (simp add: strip_def 1 2)
qed

lemma int_py_digits:
  assumes "ds \<noteq> []" "list_all is_digit ds"
  shows "int_py ds = Inr (int (nat_of_digits ds))"
proof -
  have h: "is_digit (hd ds)" "is_digit (last ds)"
    using assms by (auto simp: list_all_iff)
  then have s: "strip ds = ds" using assms by (simp add: strip_id is_digit_not_space)
  have "hd ds \<noteq> CHR ''-''" "hd ds \<noteq> CHR ''+''" using h by (auto simp: is_digit_def)
  then show ?thesis using assms by (simp add: int_py_def parse_decimal_def s)
qed

lemma int_py_minus_digits:
  assumes "ds \<noteq> []" "list_all is_digit ds"
  shows "int_py (CHR ''-'' # ds) = Inr (- int (nat_of_digits ds))"
proof -
  have "is_digit (last ds)" using assms by (auto simp: list_all_iff)
  then have "\<not> is_space (last (CHR ''-'' # ds))"
    using assms by (simp add: is_digit_not_space)
  moreover have "\<not> is_space (hd (CHR ''-'' # ds))" by (simp add: is_space_def)
  ultimately have "strip (CHR ''-'' # ds) = CHR ''-'' # ds"
    by (intro strip_id) simp_all
  moreover have "dropWhile is_space ds = ds"
    using assms by (cases ds) (auto simp: is_digit_not_space)
  ultimately show ?thesis using assms by (simp add: int_py_def parse_decimal_def)
qed

lemma int_py_plus_digits:
  assumes "ds \<noteq> []" "list_all is_digit ds"
  shows "int_py (CHR ''+'' # ds) = Inr (int (nat_of_digits ds))"
proof -
  have "is_digit (last ds)" using assms by (auto simp: list_all_iff)
  then have "\<not> is_space (last (CHR ''+'' # ds))"
    using assms by (simp add: is_digit_not_space)
  moreover have "\<not> is_space (hd (CHR ''+'' # ds))" by (simp add: is_space_def)
  ultimately have "strip (CHR ''+'' # ds) = CHR ''+'' # ds"
    by (intro strip_id) simp_all
  moreover have "dropWhile is_space ds = ds"
    using assms by (cases ds) (auto simp: is_digit_not_space)
  ultimately show ?thesis using assms by (simp add: int_py_def parse_decimal_def)
qed

lemma int_py_str_int: "int_py (str_int n) = Inr n"
proof (cases "n < 0")
  case True
  then show ?thesis
    by (simp add: str_int_def int_py_minus_digits digits_of_nonempty digits_of_all_digits
        nat_of_digits_digits_of)
next
  case False
  then show ?thesis
    by (simp add: str_int_def int_py_digits digits_of_nonempty digits_of_all_digits
        nat_of_digits_digits_of)
qed

lemma is_nil_plain [simp]: "\<not> is_nil (Element t [] x cs)"
  by (simp add: is_nil_def)

lemma str_int_10_30: "str_int (10 ^ 30) = ''1000000000000000000000000000000''"
  by (simp add: str_int_def digits_of.simps digit_char_def)


section \<open>Claims settled by evaluation\<close>

lemma Date_from_xml_raw_raises: "Date_from_xml_raw e = Inl AttributeError"
  by (simp add: Date_from_xml_raw_def try_bind_def)

text \<open>
  C1.  The date round trip.  The claim says that a valid calendar date written by
  \<open>Date_to_xml\<close> as \<^verbatim>\<open>YYYY-MM-DD\<close> is returned by \<open>Date_from_xml\<close>.  On the code the
  text is written as claimed, here \<^verbatim>\<open>2020-01-15\<close> for 15 January 2020, but the
  reader raises \<^verbatim>\<open>AttributeError\<close> on it: it calls \<^verbatim>\<open>match\<close> on the pattern source,
  a \<^verbatim>\<open>str\<close>, where the reader of datetimes calls it on a compiled pattern.
\<close>

theorem Date_from_xml_attribute_error:
  "Date_to_xml (Some \<lparr>year = 2020, month = 1, day = 15\<rparr>) ''tns'' (Element ''parent'' [] None []) ''retval''
     = Inr (Element ''parent'' [] None [Element ''{tns}retval'' [] (Some ''2020-01-15'') []])
   \<and> Date_from_xml (Element ''{tns}retval'' [] (Some ''2020-01-15'') []) = Inl AttributeError"
  by code_simp

text \<open>
  C3.  The offset of a datetime text with suffix \<^verbatim>\<open>-05:30\<close>.  The claim says the zone
  is minus 330 minutes, the sign applied to hours and minutes together.  The code reads
  the hours with their sign and adds the minutes unsigned: minus 300 plus 30, that is
  minus 270 minutes.  The suffix \<^verbatim>\<open>+05:30\<close> gives plus 330 minutes, as claimed.
\<close>

theorem DateTime_negative_offset_minutes:
  "DateTime_from_xml (Element ''{tns}retval'' [] (Some ''2020-01-15T10:30:00-05:30'') [])
     = Inr (Some \<lparr>year = 2020, month = 1, day = 15, hour = 10, minute = 30, second = 0,
                    microsecond = 0, tzinfo = Some (FixedOffsetTZ (- 270))\<rparr>)
   \<and> DateTime_from_xml (Element ''{tns}retval'' [] (Some ''2020-01-15T10:30:00+05:30'') [])
     = Inr (Some \<lparr>year = 2020, month = 1, day = 15, hour = 10, minute = 30, second = 0,
                    microsecond = 0, tzinfo = Some (FixedOffsetTZ 330)\<rparr>)"
  by code_simp

text \<open>
  C8.  Emitting \<^verbatim>\<open>String(max_len=10)\<close> into a fresh registry leaves the registry with
  exactly one restriction node for the type, whose only facet is \<^verbatim>\<open>maxLength\<close> with
  value \<^verbatim>\<open>"10"\<close>: no \<^verbatim>\<open>minLength\<close>, no \<^verbatim>\<open>length\<close>, no \<^verbatim>\<open>pattern\<close>.
\<close>

theorem String_max_len_10_restriction:
  "add_to_schema (String_max_len 10) fresh_entries =
     \<lparr>simple_types =
        [(String_max_len 10,
          Element ''{http://www.w3.org/2001/XMLSchema}restriction'' [] None
            [Element ''{http://www.w3.org/2001/XMLSchema}maxLength'' [(''value'', ''10'')] None []])]\<rparr>"
  by code_simp

section \<open>The integer round trip\<close>

text \<open>
  C5.  For every integer \<open>n\<close>, of any size, \<open>Integer_to_xml\<close> appends a child whose text
  is the decimal form \<open>str_int n\<close>, and \<open>Integer_from_xml\<close> on that child returns \<open>n\<close>.
  For ten to the power thirty the text is a one followed by thirty zeros, and reading
  that text returns ten to the power thirty.
\<close>

theorem Integer_roundtrip:
  "Integer_to_xml (Some n) tns parent_elt name
     = Inr (append_child parent_elt (Element (qname tns name) [] (Some (str_int n)) []))
   \<and> Integer_from_xml (Element (qname tns name) [] (Some (str_int n)) []) = Inr (Some n)
   \<and> str_int (10 ^ 30) = ''1000000000000000000000000000000''
   \<and> Integer_from_xml (Element (qname tns name) [] (Some ''1000000000000000000000000000000'') [])
       = Inr (Some (10 ^ 30))"
proof -
  have b: "Integer_from_xml (Element (qname tns name) [] (Some (str_int k)) []) = Inr (Some k)" for k
    by (simp add: Integer_from_xml_def nillable_element_def Integer_from_xml_raw_def
        int_text_def int_py_str_int)
  have c: "Integer_from_xml (Element (qname tns name) [] (Some ''1000000000000000000000000000000'') [])
       = Inr (Some (10 ^ 30))"
    using b [of "10 ^ 30"] unfolding str_int_10_30 .
  have d: "Integer_to_xml (Some n) tns parent_elt name
     = Inr (append_child parent_elt (Element (qname tns name) [] (Some (str_int n)) []))"
    by (simp add: Integer_to_xml_def nillable_value_def Integer_to_xml_raw_def string_to_xml_def)
  show ?thesis
    using d b [of n] str_int_10_30 c by blast
qed

section \<open>The Boolean reader\<close>

lemma char_eq_nat: "(c = d) = ((of_char c :: nat) = of_char d)"
  by simp

lemma lower_char_t: "(lower_char c = CHR ''t'') = (c = CHR ''t'' \<or> c = CHR ''T'')"
proof -
  define n :: nat where "n = of_char c"
  have t: "(c = CHR ''t'') = (n = 116)" "(c = CHR ''T'') = (n = 84)"
    unfolding n_def by (simp_all add: char_eq_nat [of c])
  have l: "(lower_char c = CHR ''t'') = ((of_char (lower_char c) :: nat) = 116)"
    by (simp add: char_eq_nat [of "lower_char c"])
  have "(of_char (lower_char c) :: nat) = (if 65 \<le> n \<and> n \<le> 90 then n + 32 else n)"
    unfolding n_def lower_char_def by simp
  then show ?thesis unfolding l t by auto
qed

lemma lower_hd: "s \<noteq> [] \<Longrightarrow> lower s = lower_char (hd s) # lower (tl s)"
  by (cases s) (simp_all add: lower_def)

text \<open>
  C6, the claim as stated fails: for an element whose text is absent the reader returns
  \<^verbatim>\<open>None\<close>, the operand \<^verbatim>\<open>s\<close> of \<^verbatim>\<open>and\<close> itself, and not the value false.
\<close>

theorem Boolean_from_xml_absent_text_counterexample:
  "Boolean_from_xml (Element ''{tns}retval'' [] None []) = Inr (Some PyNone)
   \<and> Boolean_from_xml (Element ''{tns}retval'' [] None []) \<noteq> Inr (Some (PyBool False))"
  by (simp add: Boolean_from_xml_def nillable_element_def Boolean_from_xml_raw_def is_nil_def)

text \<open>
  C6, amended.  \<open>Boolean_from_xml\<close> never fails.  For an element without the nil
  indicator it returns true or false only when the text is present and not empty: true
  if and only if the first character of the lowercased text is \<^verbatim>\<open>t\<close>, false
  otherwise.  For empty text it returns the empty text itself and for absent text
  \<^verbatim>\<open>None\<close>: both are false in a boolean context, neither is the value false.  An
  element with the nil indicator gives absence.
\<close>

theorem Boolean_from_xml_value:
  "Boolean_from_xml e =
     (if is_nil e then Inr None
      else case etext e of
             None \<Rightarrow> Inr (Some PyNone)
           | Some s \<Rightarrow>
               if s = [] then Inr (Some (PyStr []))
               else Inr (Some (PyBool (hd (lower s) = CHR ''t''))))"
  by (auto simp: Boolean_from_xml_def nillable_element_def Boolean_from_xml_raw_def lower_hd
      split: option.splits)

section \<open>The String reader\<close>

lemma utf8_ascii: "list_all is_ascii s \<Longrightarrow> utf8 s = s"
  by (induction s) (simp_all add: utf8_def utf8_char_def)

lemma String_from_xml_raw_value:
  "String_from_xml_raw e =
     Inr (case etext e of None \<Rightarrow> PyStr [] | Some s \<Rightarrow> if list_all is_ascii s then PyStr s else PyUnicode s)"
  by (auto simp: String_from_xml_raw_def text_value_def utf8_ascii split: option.splits)

text \<open>
  C9.  \<open>String_from_xml\<close> never raises.  Absent text is read as the empty string.  When
  the body of the \<^verbatim>\<open>try\<close>, \<^verbatim>\<open>str(u)\<close> followed by \<^verbatim>\<open>encode\<close>, raises on the
  text of the element, the text is returned as it was.
\<close>

theorem String_from_xml_never_raises:
  "(\<exists>v. String_from_xml e = Inr v)
   \<and> (etext e = None \<longrightarrow> String_from_xml_raw e = Inr (PyStr []))
   \<and> (etext e = Some s \<and> s \<noteq> [] \<and> (\<exists>err. try_bind (py_str (text_value s)) encode = Inl err)
        \<longrightarrow> String_from_xml_raw e = Inr (text_value s))"
  by (auto simp: String_from_xml_def nillable_element_def String_from_xml_raw_value text_value_def)

theorem String_from_xml_never_raises_witness:
  "etext (Element ''{tns}retval'' [] (Some [CHR 0xE9]) []) = Some [CHR 0xE9]
   \<and> [CHR 0xE9] \<noteq> []
   \<and> try_bind (py_str (text_value [CHR 0xE9])) encode = Inl UnicodeEncodeError
   \<and> String_from_xml_raw (Element ''{tns}retval'' [] (Some [CHR 0xE9]) []) = Inr (PyUnicode [CHR 0xE9])
   \<and> etext (Element ''{tns}retval'' [] None []) = None
   \<and> String_from_xml_raw (Element ''{tns}retval'' [] None []) = Inr (PyStr [])"
  using String_from_xml_never_raises [of "Element ''{tns}retval'' [] (Some [CHR 0xE9]) []" "[CHR 0xE9]"]
        String_from_xml_never_raises [of "Element ''{tns}retval'' [] None []" "[]"]
  by (simp add: text_value_def is_ascii_def try_bind_def)

section \<open>Emitting a restriction twice\<close>

lemma add_facet_last:
  "add_facet (length xs) f v \<lparr>simple_types = xs @ [(c, n)]\<rparr> =
     \<lparr>simple_types = xs @ [(c, append_child n (Element (qname ns_xsd f) [(''value'', v)] None []))]\<rparr>"
  by (simp add: add_facet_def)

lemma add_to_schema_skip:
  "has_class se cls \<or> is_default cls \<Longrightarrow> add_to_schema cls se = se"
  by (auto simp: add_to_schema_def)

lemma add_to_schema_emit:
  assumes "\<not> has_class se cls" "\<not> is_default cls"
  shows "\<exists>node. etag node = qname ns_xsd ''restriction''
           \<and> add_to_schema cls se = \<lparr>simple_types = simple_types se @ [(cls, node)]\<rparr>"
proof -
  obtain xs where se: "se = \<lparr>simple_types = xs\<rparr>" by (cases se) simp
  show ?thesis
    using assms unfolding se
    by (auto simp: add_to_schema_def get_restriction_tag_def add_facet_last append_child_def
        Let_def split: option.splits)
qed

lemma has_class_after:
  "\<not> is_default cls \<Longrightarrow> has_class (add_to_schema cls se) cls"
proof (cases "has_class se cls")
  case True
  then show ?thesis by (simp add: add_to_schema_skip)
next
  case False
  assume "\<not> is_default cls"
  with False obtain node where "add_to_schema cls se = \<lparr>simple_types = simple_types se @ [(cls, node)]\<rparr>"
    using add_to_schema_emit by blast
  then show ?thesis by (simp add: has_class_def)
qed

text \<open>
  C7, the claim as stated fails: a String type whose attributes are all default gets no
  restriction fragment at all, however often it is emitted.
\<close>

theorem add_to_schema_default_counterexample:
  "restrictions_of (add_to_schema String_Attributes (add_to_schema String_Attributes fresh_entries))
     String_Attributes = []"
  by (simp add: add_to_schema_def is_default_def String_Attributes_def fresh_entries_def
      restrictions_of_def)

text \<open>
  C7, amended.  Emitting is idempotent for every String type and every registry: the
  second call changes nothing.  For a type whose attributes are not all default and a
  registry that does not have the type yet, the schema document holds exactly one
  restriction fragment of the type after one call and after two.  A type whose attributes
  are all default is never emitted.
\<close>

theorem add_to_schema_idempotent:
  "add_to_schema cls (add_to_schema cls se) = add_to_schema cls se
   \<and> (\<not> is_default cls \<and> \<not> has_class se cls \<longrightarrow>
        length (restrictions_of (add_to_schema cls se) cls) = 1
        \<and> length (restrictions_of (add_to_schema cls (add_to_schema cls se)) cls) = 1)
   \<and> (is_default cls \<longrightarrow> add_to_schema cls se = se)"
proof -
  have idem: "add_to_schema cls (add_to_schema cls se) = add_to_schema cls se"
  proof (cases "is_default cls")
    case True
    then show ?thesis by (simp add: add_to_schema_skip)
  next
    case False
    then show ?thesis by (simp add: add_to_schema_skip has_class_after)
  qed
  have one: "length (restrictions_of (add_to_schema cls se) cls) = 1"
    if nd: "\<not> is_default cls" and nh: "\<not> has_class se cls"
  proof -
    obtain node where "add_to_schema cls se = \<lparr>simple_types = simple_types se @ [(cls, node)]\<rparr>"
      using add_to_schema_emit [OF nh nd] by blast
    moreover have "filter (\<lambda>p. fst p = cls) (simple_types se) = []"
      using nh by (auto simp: has_class_def filter_empty_conv)
    ultimately show ?thesis by (simp add: restrictions_of_def)
  qed
  show ?thesis using idem one by (simp add: add_to_schema_skip)
qed

theorem add_to_schema_idempotent_witness:
  "\<not> is_default (String_max_len 10) \<and> \<not> has_class fresh_entries (String_max_len 10)
   \<and> add_to_schema (String_max_len 10) (add_to_schema (String_max_len 10) fresh_entries)
       = add_to_schema (String_max_len 10) fresh_entries
   \<and> length (restrictions_of (add_to_schema (String_max_len 10)
                (add_to_schema (String_max_len 10) fresh_entries)) (String_max_len 10)) = 1
   \<and> is_default String_Attributes
   \<and> add_to_schema String_Attributes fresh_entries = fresh_entries"
  using add_to_schema_idempotent [of "String_max_len 10" fresh_entries]
        add_to_schema_idempotent [of String_Attributes fresh_entries]
  by (simp add: is_default_def String_max_len_def String_Attributes_def has_class_def fresh_entries_def)

section \<open>Zero-padded fields and fixed-width groups\<close>

lemma length_digits_of: "0 < w \<Longrightarrow> n < 10 ^ w \<Longrightarrow> length (digits_of n) \<le> w"
proof (induction n arbitrary: w rule: digits_of.induct)
  case (1 n)
  show ?case
  proof (cases "n < 10")
    case True
    then show ?thesis using 1(2) by (subst digits_of.simps) simp
  next
    case False
    obtain v where w: "w = Suc v" using 1(2) by (cases w) auto
    have "0 < v"
    proof (rule ccontr)
      assume "\<not> 0 < v"
      then have "n < 10" using 1(3) w by simp
      with False show False by simp
    qed
    have "n div 10 < 10 ^ v" using 1(3) w by (simp add: less_mult_imp_div_less mult.commute)
    then have "length (digits_of (n div 10)) \<le> v" using 1(1) False \<open>0 < v\<close> by simp
    then show ?thesis using False w by (subst digits_of.simps) simp
  qed
qed

lemma length_pad: "0 < w \<Longrightarrow> n < 10 ^ w \<Longrightarrow> length (pad w n) = w"
  using length_digits_of [of w n] by (simp add: pad_def)

lemma is_digit_0: "is_digit CHR ''0''"
  by (simp add: is_digit_def)

lemma pad_all_digits: "list_all is_digit (pad w n)"
  using digits_of_all_digits [of n] by (auto simp: pad_def list_all_iff is_digit_0)

lemma nat_of_digits_zeros: "nat_of_digits (replicate k CHR ''0'' @ ds) = nat_of_digits ds"
proof -
  have "foldl (\<lambda>a c. 10 * a + digit_val c) 0 (replicate k CHR ''0'') = 0"
    by (induction k) (simp_all add: digit_val_def)
  then show ?thesis by (simp add: nat_of_digits_def)
qed

lemma nat_of_digits_pad: "nat_of_digits (pad w n) = n"
  by (simp add: pad_def nat_of_digits_zeros nat_of_digits_digits_of)

lemma pad_nonempty: "pad w n \<noteq> []"
  by (simp add: pad_def digits_of_nonempty)

lemma int_py_pad: "int_py (pad w n) = Inr (int n)"
  by (simp add: int_py_digits pad_nonempty pad_all_digits nat_of_digits_pad)

lemma rx_rep_digit:
  "length ds = n \<Longrightarrow> list_all is_digit ds \<Longrightarrow> rx_all (Rep n digit) g (ds @ rest) = [(g, rest)]"
  by (simp add: is_digit_in_digit)

lemma rx_grp_rep_digit:
  "length ds = n \<Longrightarrow> list_all is_digit ds \<Longrightarrow>
   rx_all (Grp nm (Rep n digit)) g (ds @ rest) = [(g(nm \<mapsto> ds), rest)]"
  by (simp add: is_digit_in_digit)

lemma rx_lit_cons: "rx_all (Lit c) g (c # s) = [(g, s)]"
  by simp

lemma rx_lit_fail: "s = [] \<or> hd s \<noteq> c \<Longrightarrow> rx_all (Lit c) g s = []"
  by (cases s) auto

lemma rx_opt_frac_skip:
  "s = [] \<or> hd s \<noteq> CHR ''.'' \<Longrightarrow>
   rx_all (Opt (Grp ''sec_frac'' (Cat (Lit CHR ''.'') (Plus digit)))) g s = [(g, s)]"
  by (cases s) auto

lemma datetime_pattern_no_frac:
  assumes "digits_n 4 y" "digits_n 2 m" "digits_n 2 d" "digits_n 2 h" "digits_n 2 mi" "digits_n 2 s"
    and "sep = CHR ''T'' \<or> sep = CHR '' ''" and "rest = [] \<or> hd rest \<noteq> CHR ''.''"
  shows "rx_all datetime_pattern Map.empty (dt_text y m d sep h mi s @ rest)
           = [(dt_groups y m d h mi s, rest)]"
  using assms unfolding digits_n_def
  by (simp add: datetime_pattern_def date_pattern_def time_pattern_def dt_text_def dt_groups_def
      rx_grp_rep_digit rx_opt_frac_skip del: rx_all.simps(4,7,8) )

section \<open>Matching the datetime pattern\<close>

lemma rx_plus_digits:
  assumes "list_all is_digit fs" "r = [] \<or> \<not> is_digit (hd r)"
  shows "rx_all (Plus digit) g (fs @ r) = map (\<lambda>k. (g, drop k fs @ r)) (rev [1 ..< Suc (length fs)])"
proof -
  have "takeWhile (\<lambda>x. x \<in> set digit) r = []"
    using assms(2) by (cases r) (auto simp: is_digit_in_digit)
  then have tw: "takeWhile (\<lambda>x. x \<in> set digit) (fs @ r) = fs"
    using assms(1) by (simp add: takeWhile_append2 list_all_iff is_digit_in_digit)
  have "map (\<lambda>k. (g, drop k (fs @ r))) (rev [1 ..< Suc (length fs)])
          = map (\<lambda>k. (g, drop k fs @ r)) (rev [1 ..< Suc (length fs)])"
    by (rule map_cong) auto
  then show ?thesis by (simp only: rx_all.simps tw)
qed

lemma rx_frac_group:
  assumes "fs \<noteq> []" "list_all is_digit fs" "r = [] \<or> \<not> is_digit (hd r)"
  shows "rx_all (Grp ''sec_frac'' (Cat (Lit CHR ''.'') (Plus digit))) g (CHR ''.'' # fs @ r)
         = map (\<lambda>k. (g(''sec_frac'' \<mapsto> CHR ''.'' # take k fs), drop k fs @ r))
               (rev [1 ..< Suc (length fs)])"
proof -
  have "rx_all (Cat (Lit CHR ''.'') (Plus digit)) g (CHR ''.'' # fs @ r)
          = map (\<lambda>k. (g, drop k fs @ r)) (rev [1 ..< Suc (length fs)])"
    using rx_plus_digits [OF assms(2,3)] by (simp del: rx_all.simps(5))
  then have "rx_all (Grp ''sec_frac'' (Cat (Lit CHR ''.'') (Plus digit))) g (CHR ''.'' # fs @ r)
         = map (\<lambda>k. (g(''sec_frac'' \<mapsto> take (length (CHR ''.'' # fs @ r) - length (drop k fs @ r))
                                          (CHR ''.'' # fs @ r)), drop k fs @ r))
               (rev [1 ..< Suc (length fs)])"
    by (simp only: rx_all.simps(8) map_map comp_def case_prod_conv)
  also have "\<dots> = map (\<lambda>k. (g(''sec_frac'' \<mapsto> CHR ''.'' # take k fs), drop k fs @ r))
               (rev [1 ..< Suc (length fs)])"
  proof (rule map_cong)
    fix k assume "k \<in> set (rev [1 ..< Suc (length fs)])"
    then have k: "k \<le> length fs" by auto
    then have "length (CHR ''.'' # fs @ r) - length (drop k fs @ r) = Suc k" by simp
    then show "(g(''sec_frac'' \<mapsto> take (length (CHR ''.'' # fs @ r) - length (drop k fs @ r))
                                          (CHR ''.'' # fs @ r)), drop k fs @ r)
               = (g(''sec_frac'' \<mapsto> CHR ''.'' # take k fs), drop k fs @ r)"
      using k by simp
  qed simp
  finally show ?thesis .
qed

lemma rev_upt_Suc: "0 < n \<Longrightarrow> rev [1 ..< Suc n] = n # rev [1 ..< n]"
  by simp

lemma rx_opt_frac:
  assumes "fs \<noteq> []" "list_all is_digit fs" "r = [] \<or> \<not> is_digit (hd r)"
  shows "\<exists>alts. rx_all (Opt (Grp ''sec_frac'' (Cat (Lit CHR ''.'') (Plus digit)))) g (CHR ''.'' # fs @ r)
                  = (g(''sec_frac'' \<mapsto> CHR ''.'' # fs), r) # alts
               \<and> (\<forall>p \<in> set alts. starts_digit_or_dot (snd p))"
proof -
  let ?f = "\<lambda>k. (g(''sec_frac'' \<mapsto> CHR ''.'' # take k fs), drop k fs @ r)"
  let ?alts = "map ?f (rev [1 ..< length fs]) @ [(g, CHR ''.'' # fs @ r)]"
  have n: "0 < length fs" using assms(1) by simp
  have "rx_all (Opt (Grp ''sec_frac'' (Cat (Lit CHR ''.'') (Plus digit)))) g (CHR ''.'' # fs @ r)
          = map ?f (rev [1 ..< Suc (length fs)]) @ [(g, CHR ''.'' # fs @ r)]"
    using rx_frac_group [OF assms] by (simp del: rx_all.simps(5,6,8))
  also have "\<dots> = ?f (length fs) # ?alts"
    by (simp only: rev_upt_Suc [OF n] list.map append_Cons)
  finally have 1: "rx_all (Opt (Grp ''sec_frac'' (Cat (Lit CHR ''.'') (Plus digit)))) g (CHR ''.'' # fs @ r)
          = (g(''sec_frac'' \<mapsto> CHR ''.'' # fs), r) # ?alts"
    by simp
  have 2: "\<forall>p \<in> set ?alts. starts_digit_or_dot (snd p)"
  proof
    fix p assume "p \<in> set ?alts"
    then consider k where "1 \<le> k" "k < length fs" "p = ?f k" | "p = (g, CHR ''.'' # fs @ r)"
      by auto
    then show "starts_digit_or_dot (snd p)"
    proof cases
      case 1
      then have "hd (drop k fs @ r) = fs ! k" by (simp add: hd_drop_conv_nth)
      moreover have "is_digit (fs ! k)" using 1 assms(2) by (simp add: list_all_length)
      ultimately show ?thesis using 1 by (simp add: starts_digit_or_dot_def)
    next
      case 2
      then show ?thesis by (simp add: starts_digit_or_dot_def)
    qed
  qed
  show ?thesis using 1 2 by blast
qed

lemma rx_plus_none: "s = [] \<or> \<not> is_digit (hd s) \<Longrightarrow> rx_all (Plus digit) g s = []"
  by (cases s) (auto simp: is_digit_in_digit)

lemma rx_opt_no_frac:
  assumes "\<not> starts_frac s"
  shows "rx_all (Opt (Grp ''sec_frac'' (Cat (Lit CHR ''.'') (Plus digit)))) g s = [(g, s)]"
proof (cases s)
  case Nil
  then show ?thesis by simp
next
  case (Cons c s')
  show ?thesis
  proof (cases "c = CHR ''.''")
    case False
    then show ?thesis using Cons by simp
  next
    case True
    have "s' = [] \<or> \<not> is_digit (hd s')"
      using assms Cons True by (cases s') (simp_all add: starts_frac_def)
    then have "rx_all (Plus digit) g s' = []" by (rule rx_plus_none)
    then show ?thesis using Cons True by (simp del: rx_all.simps(5))
  qed
qed

lemma datetime_pattern_match:
  assumes "digits_n 4 y" "digits_n 2 m" "digits_n 2 d" "digits_n 2 h" "digits_n 2 mi" "digits_n 2 s"
    and "sep = CHR ''T'' \<or> sep = CHR '' ''"
    and "frac_part F (dt_groups y m d h mi s) G"
    and "frac_end F r"
  shows "\<exists>alts. rx_all datetime_pattern Map.empty (dt_text y m d sep h mi s @ F @ r) = (G, r) # alts
               \<and> (\<forall>p \<in> set alts. starts_digit_or_dot (snd p))"
proof -
  let ?opt = "Opt (Grp ''sec_frac'' (Cat (Lit CHR ''.'') (Plus digit)))"
  have pre: "rx_all datetime_pattern Map.empty (dt_text y m d sep h mi s @ rest)
               = rx_all ?opt (dt_groups y m d h mi s) rest" for rest
    using assms(1-7) unfolding digits_n_def
    by (simp add: datetime_pattern_def date_pattern_def time_pattern_def dt_text_def dt_groups_def
        rx_grp_rep_digit del: rx_all.simps(4,7,8))
  consider "F = []" "G = dt_groups y m d h mi s"
    | fs where "F = CHR ''.'' # fs" "fs \<noteq> []" "list_all is_digit fs"
        "G = (dt_groups y m d h mi s)(''sec_frac'' \<mapsto> F)"
    using assms(8) unfolding frac_part_def by blast
  then show ?thesis
  proof cases
    case 1
    have "rx_all ?opt (dt_groups y m d h mi s) r = [(dt_groups y m d h mi s, r)]"
      by (rule rx_opt_no_frac) (use assms(9) 1(1) in \<open>simp add: frac_end_def\<close>)
    then have "rx_all datetime_pattern Map.empty (dt_text y m d sep h mi s @ F @ r) = (G, r) # []"
      using pre [of r] 1 by (simp del: rx_all.simps)
    then show ?thesis by (intro exI [of _ "[]"]) (simp del: rx_all.simps)
  next
    case 2
    have "r = [] \<or> \<not> is_digit (hd r)" using assms(9) 2(1) by (simp add: frac_end_def)
    from rx_opt_frac [OF 2(2,3) this, of "dt_groups y m d h mi s"]
    show ?thesis using pre [of "F @ r"] 2 by (simp del: rx_all.simps)
  qed
qed

section \<open>Reading a datetime text of known shape\<close>

lemma cat_first:
  assumes "rx_all a g s = (g1, r) # alts" "\<forall>p \<in> set alts. rx_all b (fst p) (snd p) = []"
  shows "rx_all (Cat a b) g s = rx_all b g1 r"
proof -
  have "concat (map (\<lambda>(g', s'). rx_all b g' s') alts) = []"
    using assms(2) by (auto simp: case_prod_beta)
  then show ?thesis by (simp only: rx_all.simps(6) assms(1) list.map concat.simps case_prod_conv append_Nil2)
qed

lemma lit_fail_dd:
  "starts_digit_or_dot s \<Longrightarrow> c \<noteq> CHR ''.'' \<Longrightarrow> \<not> is_digit c \<Longrightarrow> rx_all (Lit c) g s = []"
  by (cases s) (auto simp: starts_digit_or_dot_def)

lemma offset_fail:
  "r = [] \<or> (hd r \<noteq> CHR ''+'' \<and> hd r \<noteq> CHR ''-'') \<Longrightarrow> rx_all offset_pattern g r = []"
  by (cases r) (auto simp: offset_pattern_def)

lemma offset_fail_dd: "starts_digit_or_dot s \<Longrightarrow> rx_all offset_pattern g s = []"
  by (rule offset_fail) (auto simp: starts_digit_or_dot_def is_digit_def)

lemma offset_no_match: "\<not> starts_offset r \<Longrightarrow> rx_all offset_pattern g r = []"
  by (cases r)
     (auto simp: offset_pattern_def starts_offset_def digits_n_def is_digit_in_digit
           split: list.splits if_splits)

lemma starts_offset_shape:
  assumes "starts_offset r"
  shows "\<exists>sg hh mm r'. r = sg # hh @ CHR '':'' # mm @ r' \<and> digits_n 2 hh \<and> digits_n 2 mm
                        \<and> (sg = CHR ''+'' \<or> sg = CHR ''-'')"
proof -
  obtain c r1 where r: "r = c # r1" and c: "c = CHR ''+'' \<or> c = CHR ''-''"
    and hh: "digits_n 2 (take 2 r1)"
    and rest: "case drop 2 r1 of [] \<Rightarrow> False | c2 # r2 \<Rightarrow> c2 = CHR '':'' \<and> digits_n 2 (take 2 r2)"
    using assms by (cases r) (auto simp: starts_offset_def)
  obtain r2 where d: "drop 2 r1 = CHR '':'' # r2" and mm: "digits_n 2 (take 2 r2)"
    using rest by (cases "drop 2 r1") auto
  have "r1 = take 2 r1 @ CHR '':'' # take 2 r2 @ drop 2 r2"
    using d append_take_drop_id [of 2 r1] by simp
  then have "r = c # take 2 r1 @ CHR '':'' # take 2 r2 @ drop 2 r2" using r by simp
  then show ?thesis using c hh mm by blast
qed

lemma offset_match:
  assumes "digits_n 2 hh" "digits_n 2 mm" "sg = CHR ''+'' \<or> sg = CHR ''-''"
  shows "rx_all offset_pattern g (sg # hh @ CHR '':'' # mm @ r)
           = [(g(''tz_hr'' \<mapsto> sg # hh, ''tz_min'' \<mapsto> mm), r)]"
  using assms unfolding digits_n_def
  by (auto simp add: offset_pattern_def rx_grp_rep_digit rx_rep_digit simp del: rx_all.simps(4))

lemma microsec_of_0: "microsec_of (float_sec_frac None) = 0"
  by (simp add: microsec_of_def float_sec_frac_def binary64_def)

lemma int_py_digits_n: "0 < n \<Longrightarrow> digits_n n ds \<Longrightarrow> int_py ds = Inr (int (nat_of_digits ds))"
  by (rule int_py_digits) (auto simp: digits_n_def)

lemma parse_date_groups:
  assumes "digits_n 4 y" "digits_n 2 m" "digits_n 2 d" "digits_n 2 h" "digits_n 2 mi" "digits_n 2 s"
    and "G ''year'' = Some y" "G ''month'' = Some m" "G ''day'' = Some d"
        "G ''hr'' = Some h" "G ''min'' = Some mi" "G ''sec'' = Some s"
  shows "parse_date G tz =
           datetime_new (int (nat_of_digits y)) (int (nat_of_digits m)) (int (nat_of_digits d))
             (int (nat_of_digits h)) (int (nat_of_digits mi)) (int (nat_of_digits s))
             (microsec_of (float_sec_frac (G ''sec_frac''))) tz"
proof -
  have "int_py y = Inr (int (nat_of_digits y))" "int_py m = Inr (int (nat_of_digits m))"
       "int_py d = Inr (int (nat_of_digits d))" "int_py h = Inr (int (nat_of_digits h))"
       "int_py mi = Inr (int (nat_of_digits mi))" "int_py s = Inr (int (nat_of_digits s))"
    using assms(1-6) by (simp_all add: int_py_digits_n [of 4] int_py_digits_n [of 2])
  then show ?thesis
    using assms(7-12) by (simp add: parse_date_def int_field_def try_bind_def)
qed

lemma frac_part_groups:
  assumes "frac_part F (dt_groups y m d h mi s) G"
  shows "G ''year'' = Some y" "G ''month'' = Some m" "G ''day'' = Some d"
        "G ''hr'' = Some h" "G ''min'' = Some mi" "G ''sec'' = Some s"
        "G ''sec_frac'' = (if F = [] then None else Some F)"
  using assms by (auto simp: frac_part_def dt_groups_def)

lemma DateTime_from_xml_raw_local:
  assumes dg: "digits_n 4 y" "digits_n 2 m" "digits_n 2 d" "digits_n 2 h" "digits_n 2 mi" "digits_n 2 s"
    and sep: "sep = CHR ''T'' \<or> sep = CHR '' ''"
    and fp: "frac_part F (dt_groups y m d h mi s) G"
    and r': "frac_end F r" and rz: "r = [] \<or> hd r \<noteq> CHR ''Z''" and ro: "\<not> starts_offset r"
  shows "DateTime_from_xml_raw (Element t a (Some (dt_text y m d sep h mi s @ F @ r)) cs)
           = parse_date G None"
proof -
  let ?txt = "dt_text y m d sep h mi s @ F @ r"
  obtain alts where m: "rx_all datetime_pattern Map.empty ?txt = (G, r) # alts"
    and dd: "\<forall>p \<in> set alts. starts_digit_or_dot (snd p)"
    using datetime_pattern_match [OF dg sep fp r'] by blast
  have zf: "\<forall>p \<in> set alts. rx_all (Lit CHR ''Z'') (fst p) (snd p) = []"
    using dd by (auto simp: lit_fail_dd is_digit_def simp del: rx_all.simps)
  have of: "\<forall>p \<in> set alts. rx_all offset_pattern (fst p) (snd p) = []"
    using dd by (auto simp: offset_fail_dd simp del: rx_all.simps)
  have "rx_all (Lit CHR ''Z'') G r = []" by (rule rx_lit_fail) (rule rz)
  then have utc: "rx_all (Cat datetime_pattern (Lit CHR ''Z'')) Map.empty ?txt = []"
    using cat_first [OF m zf] by (simp del: rx_all.simps)
  have "rx_all offset_pattern G r = []" by (rule offset_no_match) (rule ro)
  then have off: "rx_all (Cat datetime_pattern offset_pattern) Map.empty ?txt = []"
    using cat_first [OF m of] by (simp del: rx_all.simps)
  show ?thesis
    by (simp add: DateTime_from_xml_raw_def utc_re_def offset_re_def local_re_def try_bind_def
        re_match_def utc off m del: rx_all.simps)
qed

lemma DateTime_from_xml_raw_utc:
  assumes dg: "digits_n 4 y" "digits_n 2 m" "digits_n 2 d" "digits_n 2 h" "digits_n 2 mi" "digits_n 2 s"
    and sep: "sep = CHR ''T'' \<or> sep = CHR '' ''"
    and fp: "frac_part F (dt_groups y m d h mi s) G"
  shows "DateTime_from_xml_raw (Element t a (Some (dt_text y m d sep h mi s @ F @ CHR ''Z'' # r)) cs)
           = parse_date G (Some UTC)"
proof -
  let ?txt = "dt_text y m d sep h mi s @ F @ CHR ''Z'' # r"
  have r': "frac_end F (CHR ''Z'' # r)"
    by (simp add: frac_end_def starts_frac_def is_digit_def split: list.splits)
  obtain alts where m: "rx_all datetime_pattern Map.empty ?txt = (G, CHR ''Z'' # r) # alts"
    and dd: "\<forall>p \<in> set alts. starts_digit_or_dot (snd p)"
    using datetime_pattern_match [OF dg sep fp r'] by blast
  have zf: "\<forall>p \<in> set alts. rx_all (Lit CHR ''Z'') (fst p) (snd p) = []"
    using dd by (auto simp: lit_fail_dd is_digit_def simp del: rx_all.simps)
  have utc: "rx_all (Cat datetime_pattern (Lit CHR ''Z'')) Map.empty ?txt = [(G, r)]"
    using cat_first [OF m zf] by (simp only: rx_lit_cons)
  show ?thesis
    by (simp add: DateTime_from_xml_raw_def utc_re_def try_bind_def
        re_match_def utc del: rx_all.simps)
qed

lemma DateTime_from_xml_raw_offset:
  assumes dg: "digits_n 4 y" "digits_n 2 m" "digits_n 2 d" "digits_n 2 h" "digits_n 2 mi" "digits_n 2 s"
    and sep: "sep = CHR ''T'' \<or> sep = CHR '' ''"
    and fp: "frac_part F (dt_groups y m d h mi s) G"
    and tz: "digits_n 2 hh" "digits_n 2 mm" "sg = CHR ''+'' \<or> sg = CHR ''-''"
  shows "DateTime_from_xml_raw
           (Element t a (Some (dt_text y m d sep h mi s @ F @ sg # hh @ CHR '':'' # mm @ r)) cs)
           = try_bind (FixedOffset ((if sg = CHR ''-'' then - int (nat_of_digits hh)
                                     else int (nat_of_digits hh)) * 60 + int (nat_of_digits mm)))
               (\<lambda>z. parse_date (G(''tz_hr'' \<mapsto> sg # hh, ''tz_min'' \<mapsto> mm)) (Some z))"
proof -
  let ?r = "sg # hh @ CHR '':'' # mm @ r"
  let ?txt = "dt_text y m d sep h mi s @ F @ ?r"
  have r': "frac_end F ?r"
    using tz(3) by (auto simp: frac_end_def starts_frac_def is_digit_def split: list.splits)
  obtain alts where m: "rx_all datetime_pattern Map.empty ?txt = (G, ?r) # alts"
    and dd: "\<forall>p \<in> set alts. starts_digit_or_dot (snd p)"
    using datetime_pattern_match [OF dg sep fp r'] by blast
  have zf: "\<forall>p \<in> set alts. rx_all (Lit CHR ''Z'') (fst p) (snd p) = []"
    using dd by (auto simp: lit_fail_dd is_digit_def simp del: rx_all.simps)
  have of: "\<forall>p \<in> set alts. rx_all offset_pattern (fst p) (snd p) = []"
    using dd by (auto simp: offset_fail_dd simp del: rx_all.simps)
  have "rx_all (Lit CHR ''Z'') G ?r = []" using tz(3) by auto
  then have utc: "rx_all (Cat datetime_pattern (Lit CHR ''Z'')) Map.empty ?txt = []"
    using cat_first [OF m zf] by (simp del: rx_all.simps)
  have off: "rx_all (Cat datetime_pattern offset_pattern) Map.empty ?txt
               = [(G(''tz_hr'' \<mapsto> sg # hh, ''tz_min'' \<mapsto> mm), r)]"
    using cat_first [OF m of] offset_match [OF tz, of G r]
    by (simp del: rx_all.simps)
  have nh: "hh \<noteq> []" "list_all is_digit hh" using tz(1) by (auto simp: digits_n_def)
  have ih: "int_py (sg # hh) = Inr (if sg = CHR ''-'' then - int (nat_of_digits hh)
                                     else int (nat_of_digits hh))"
    using tz(3) int_py_minus_digits [OF nh] int_py_plus_digits [OF nh] by auto
  have im: "int_py mm = Inr (int (nat_of_digits mm))" using tz(2) by (simp add: int_py_digits_n [of 2])
  show ?thesis
    by (simp add: DateTime_from_xml_raw_def utc_re_def offset_re_def try_bind_def
        re_match_def utc off int_group_def ih im del: rx_all.simps)
qed

section \<open>Reading what isoformat writes\<close>

lemma digits_n_pad: "0 < w \<Longrightarrow> n < 10 ^ w \<Longrightarrow> digits_n w (pad w n)"
  by (simp add: digits_n_def length_pad pad_all_digits)

lemma digits_n_pad2: "x \<le> 99 \<Longrightarrow> digits_n 2 (pad 2 (nat x))"
  by (rule digits_n_pad) auto

lemma digits_n_pad4: "x \<le> 9999 \<Longrightarrow> digits_n 4 (pad 4 (nat x))"
  by (rule digits_n_pad) auto

lemma frac_part_none: "frac_part [] G G"
  by (simp add: frac_part_def)

lemma frac_part_some:
  "fs \<noteq> [] \<Longrightarrow> list_all is_digit fs \<Longrightarrow> frac_part (CHR ''.'' # fs) G (G(''sec_frac'' \<mapsto> CHR ''.'' # fs))"
  by (simp add: frac_part_def)

lemma iso_text:
  "datetime_isoformat sep t =
     dt_text (pad 4 (nat (year t))) (pad 2 (nat (month t))) (pad 2 (nat (day t))) sep
             (pad 2 (nat (hour t))) (pad 2 (nat (minute t))) (pad 2 (nat (second t)))
     @ frac_text (microsecond t)
     @ (case tzinfo t of None \<Rightarrow> [] | Some tz \<Rightarrow> format_utcoffset (utcoffset tz))"
  by (simp add: datetime_isoformat_def date_isoformat_def dt_text_def frac_text_def)

lemma days_in_month_le: "days_in_month y m \<le> 31"
  by (simp add: days_in_month_def)

lemma DateTime_from_xml_raw_isoformat:
  assumes v: "valid_datetime t" and fs: "frac_survives (microsecond t)"
    and os: "offset_survives (tzinfo t)"
  shows "DateTime_from_xml_raw (Element tg a (Some (datetime_isoformat CHR ''T'' t)) cs) = Inr t"
proof -
  define y m d h mi s where "y = pad 4 (nat (year t))" and "m = pad 2 (nat (month t))"
    and "d = pad 2 (nat (day t))" and "h = pad 2 (nat (hour t))"
    and "mi = pad 2 (nat (minute t))" and "s = pad 2 (nat (second t))"
  define F where "F = frac_text (microsecond t)"
  define G where "G = (if microsecond t = 0 then dt_groups y m d h mi s
                       else (dt_groups y m d h mi s)(''sec_frac'' \<mapsto> F))"
  have vd: "valid_date_fields (year t) (month t) (day t)"
    and vt: "valid_time_fields (hour t) (minute t) (second t) (microsecond t)"
    and vz: "valid_tz (tzinfo t)"
    using v by (simp_all add: valid_datetime_def)
  have d31: "day t \<le> 31" using vd days_in_month_le [of "year t" "month t"]
    by (simp add: valid_date_fields_def)
  have dg: "digits_n 4 y" "digits_n 2 m" "digits_n 2 d" "digits_n 2 h" "digits_n 2 mi" "digits_n 2 s"
    using vd vt d31 unfolding y_def m_def d_def h_def mi_def s_def valid_date_fields_def valid_time_fields_def
    by (simp_all add: digits_n_pad2 digits_n_pad4)
  have nums: "int (nat_of_digits y) = year t" "int (nat_of_digits m) = month t"
    "int (nat_of_digits d) = day t" "int (nat_of_digits h) = hour t"
    "int (nat_of_digits mi) = minute t" "int (nat_of_digits s) = second t"
    using vd vt unfolding y_def m_def d_def h_def mi_def s_def valid_date_fields_def valid_time_fields_def
    by (simp_all add: nat_of_digits_pad)
  have fp: "frac_part F (dt_groups y m d h mi s) G"
    unfolding F_def G_def frac_text_def
    by (simp add: frac_part_none frac_part_some pad_nonempty pad_all_digits)
  have us: "microsec_of (float_sec_frac (G ''sec_frac'')) = microsecond t"
    using fs unfolding G_def F_def frac_text_def frac_survives_def
    by (auto simp: dt_groups_def microsec_of_0)
  have grp: "G ''year'' = Some y" "G ''month'' = Some m" "G ''day'' = Some d"
        "G ''hr'' = Some h" "G ''min'' = Some mi" "G ''sec'' = Some s"
    using frac_part_groups [OF fp] by simp_all
  have pd: "parse_date G' z = Inr (t\<lparr>tzinfo := z\<rparr>)"
    if "G' ''year'' = Some y" "G' ''month'' = Some m" "G' ''day'' = Some d"
       "G' ''hr'' = Some h" "G' ''min'' = Some mi" "G' ''sec'' = Some s"
       "G' ''sec_frac'' = G ''sec_frac''" for G' z
    using parse_date_groups [OF dg that(1-6), of z] vd vt
    by (simp add: nums that(7) us datetime_new_def)
  have isotx: "datetime_isoformat CHR ''T'' t =
      dt_text y m d CHR ''T'' h mi s @ F @ (case tzinfo t of None \<Rightarrow> [] | Some tz \<Rightarrow> format_utcoffset (utcoffset tz))"
    unfolding iso_text y_def m_def d_def h_def mi_def s_def F_def ..
  show ?thesis
  proof (cases "tzinfo t")
    case None
    have "DateTime_from_xml_raw (Element tg a (Some (dt_text y m d CHR ''T'' h mi s @ F @ [])) cs)
            = parse_date G None"
      by (rule DateTime_from_xml_raw_local [OF dg _ fp])
         (simp_all add: frac_end_def starts_frac_def starts_offset_def F_def frac_text_def)
    then show ?thesis using pd [of G None] grp None by (simp add: isotx)
  next
    case (Some tz)
    define off where "off = utcoffset tz"
    define sg where "sg = (if off < 0 then CHR ''-'' else CHR ''+'')"
    define hh mm where "hh = pad 2 (nat (\<bar>off\<bar> div 60))" and "mm = pad 2 (nat (\<bar>off\<bar> mod 60))"
    have ob: "\<bar>off\<bar> < 1440" using vz Some unfolding off_def by (cases tz) simp_all
    have tzd: "digits_n 2 hh" "digits_n 2 mm" "sg = CHR ''+'' \<or> sg = CHR ''-''"
      using ob unfolding hh_def mm_def sg_def by (simp_all add: digits_n_pad2)
    have fo: "format_utcoffset off = sg # hh @ CHR '':'' # mm @ []"
      by (simp add: format_utcoffset_def sg_def hh_def mm_def)
    have good: "0 \<le> off \<or> off mod 60 = 0"
      using os Some unfolding off_def offset_survives_def by (cases tz) simp_all
    have val: "(if sg = CHR ''-'' then - int (nat_of_digits hh) else int (nat_of_digits hh)) * 60
                 + int (nat_of_digits mm) = off"
    proof (cases "off < 0")
      case True
      then have "off mod 60 = 0" using good by simp
      then have "\<bar>off\<bar> mod 60 = 0" "\<bar>off\<bar> div 60 * 60 = \<bar>off\<bar>" using True by auto
      then show ?thesis using True by (simp add: sg_def hh_def mm_def nat_of_digits_pad)
    next
      case False
      then have "0 \<le> off div 60" "\<bar>off\<bar> = off" by (simp_all add: pos_imp_zdiv_nonneg_iff)
      then show ?thesis using False by (simp add: sg_def hh_def mm_def nat_of_digits_pad)
    qed
    have fx: "FixedOffset off = Inr tz"
      using vz Some ob unfolding off_def by (cases tz) (simp_all add: FixedOffset_def)
    have "DateTime_from_xml_raw
            (Element tg a (Some (dt_text y m d CHR ''T'' h mi s @ F @ sg # hh @ CHR '':'' # mm @ [])) cs)
            = try_bind (FixedOffset off)
                (\<lambda>z. parse_date (G(''tz_hr'' \<mapsto> sg # hh, ''tz_min'' \<mapsto> mm)) (Some z))"
      using DateTime_from_xml_raw_offset [OF dg _ fp tzd, of "CHR ''T''" tg a "[]" cs]
      by (simp only: val) simp
    then show ?thesis
      using pd [of "G(''tz_hr'' \<mapsto> sg # hh, ''tz_min'' \<mapsto> mm)" "Some tz"] grp Some
      by (simp add: isotx fo [unfolded off_def] off_def fx [unfolded off_def] try_bind_def)
  qed
qed

section \<open>The matcher finds exactly the prefixes in the grammar\<close>

lemma prefix_all_takeWhile:
  "(\<exists>q. s = p @ q \<and> set p \<subseteq> A) = (p = take (length p) s \<and> length p \<le> length (takeWhile (\<lambda>x. x \<in> A) s))"
proof
  assume "\<exists>q. s = p @ q \<and> set p \<subseteq> A"
  then obtain q where s: "s = p @ q" and p: "set p \<subseteq> A" by blast
  have "takeWhile (\<lambda>x. x \<in> A) (p @ q) = p @ takeWhile (\<lambda>x. x \<in> A) q"
    using p by (simp add: takeWhile_append2 subset_iff)
  then show "p = take (length p) s \<and> length p \<le> length (takeWhile (\<lambda>x. x \<in> A) s)"
    by (simp add: s)
next
  assume a: "p = take (length p) s \<and> length p \<le> length (takeWhile (\<lambda>x. x \<in> A) s)"
  then have "p = take (length p) (takeWhile (\<lambda>x. x \<in> A) s)"
    by (metis takeWhile_eq_take take_take min.absorb1 length_takeWhile_le)
  then have "set p \<subseteq> set (takeWhile (\<lambda>x. x \<in> A) s)" by (metis set_take_subset)
  then have "set p \<subseteq> A" by (auto dest: set_takeWhileD)
  moreover have "s = p @ drop (length p) s" using a by (metis append_take_drop_id)
  ultimately show "\<exists>q. s = p @ q \<and> set p \<subseteq> A" by blast
qed

lemma rx_all_rests: "snd ` set (rx_all r g s) = {q. \<exists>p \<in> lang r. s = p @ q}"
proof (induction r arbitrary: g s)
  case Eps
  show ?case by auto
next
  case (Lit c)
  show ?case by (cases s) auto
next
  case (Cls cs)
  show ?case by (cases s) auto
next
  case (Rep n cs)
  show ?case
  proof (cases "n \<le> length s \<and> list_all (\<lambda>x. x \<in> set cs) (take n s)")
    case True
    have "{q. \<exists>p \<in> lang (Rep n cs). s = p @ q} = {drop n s}"
    proof (rule set_eqI)
      fix q
      show "(q \<in> {q. \<exists>p \<in> lang (Rep n cs). s = p @ q}) = (q \<in> {drop n s})"
      proof
        assume "q \<in> {q. \<exists>p \<in> lang (Rep n cs). s = p @ q}"
        then show "q \<in> {drop n s}" by auto
      next
        assume "q \<in> {drop n s}"
        then have "s = take n s @ q" by simp
        moreover have "take n s \<in> lang (Rep n cs)" using True by (auto simp: list_all_iff)
        ultimately show "q \<in> {q. \<exists>p \<in> lang (Rep n cs). s = p @ q}" by blast
      qed
    qed
    then show ?thesis using True by simp
  next
    case False
    have "{q. \<exists>p \<in> lang (Rep n cs). s = p @ q} = {}"
      using False by (auto simp: list_all_iff)
    then show ?thesis using False by simp
  qed
next
  case (Plus cs)
  let ?n = "length (takeWhile (\<lambda>x. x \<in> set cs) s)"
  have "set (rev [1 ..< Suc ?n]) = {k. 1 \<le> k \<and> k \<le> ?n}" by auto
  then have "snd ` set (rx_all (Plus cs) g s) = (\<lambda>k. drop k s) ` {k. 1 \<le> k \<and> k \<le> ?n}"
    by (simp only: rx_all.simps set_map image_image snd_conv)
  then have l: "snd ` set (rx_all (Plus cs) g s) = {drop k s | k. 1 \<le> k \<and> k \<le> ?n}"
    by blast
  have r: "{q. \<exists>p \<in> lang (Plus cs). s = p @ q} = {drop k s | k. 1 \<le> k \<and> k \<le> ?n}"
  proof (rule set_eqI)
    fix q
    show "(q \<in> {q. \<exists>p \<in> lang (Plus cs). s = p @ q}) = (q \<in> {drop k s | k. 1 \<le> k \<and> k \<le> ?n})"
    proof
      assume "q \<in> {q. \<exists>p \<in> lang (Plus cs). s = p @ q}"
      then obtain p where p: "p \<noteq> []" "set p \<subseteq> set cs" "s = p @ q" by auto
      then have "length p \<le> ?n" using prefix_all_takeWhile [of s p "set cs"] by blast
      moreover have "q = drop (length p) s" using p by simp
      moreover have "1 \<le> length p" using p(1) by (cases p) auto
      ultimately show "q \<in> {drop k s | k. 1 \<le> k \<and> k \<le> ?n}" by blast
    next
      assume "q \<in> {drop k s | k. 1 \<le> k \<and> k \<le> ?n}"
      then obtain k where k: "1 \<le> k" "k \<le> ?n" "q = drop k s" by blast
      have kl: "k \<le> length s" using k(2) length_takeWhile_le [of "\<lambda>x. x \<in> set cs" s] by linarith
      define p where "p = take k s"
      have lp: "length p = k" using kl by (simp add: p_def)
      then have "p = take (length p) s \<and> length p \<le> ?n" using k by (simp add: p_def)
      then have "\<exists>q'. s = p @ q' \<and> set p \<subseteq> set cs" using prefix_all_takeWhile [of s p "set cs"] by blast
      moreover have "p \<noteq> []" using lp k(1) by auto
      moreover have "s = p @ q" by (simp add: p_def k(3))
      ultimately show "q \<in> {q. \<exists>p \<in> lang (Plus cs). s = p @ q}" by auto
    qed
  qed
  show ?case unfolding l r ..
next
  case (Cat a b)
  have "snd ` set (rx_all (Cat a b) g s)
          = (\<Union>p \<in> set (rx_all a g s). snd ` set (rx_all b (fst p) (snd p)))"
    by (auto simp: case_prod_beta image_iff)
  also have "\<dots> = (\<Union>p \<in> set (rx_all a g s). {q. \<exists>v \<in> lang b. snd p = v @ q})"
    by (simp add: Cat.IH(2))
  also have "\<dots> = (\<Union>s' \<in> snd ` set (rx_all a g s). {q. \<exists>v \<in> lang b. s' = v @ q})"
    by auto
  also have "\<dots> = (\<Union>s' \<in> {q. \<exists>u \<in> lang a. s = u @ q}. {q. \<exists>v \<in> lang b. s' = v @ q})"
    by (simp only: Cat.IH(1))
  also have "\<dots> = {q. \<exists>p \<in> lang (Cat a b). s = p @ q}"
    by (auto, metis append.assoc, metis append.assoc)
  finally show ?case .
next
  case (Opt a)
  have "snd ` set (rx_all (Opt a) g s) = insert s (snd ` set (rx_all a g s))" by auto
  then show ?case unfolding Opt.IH by auto
next
  case (Grp nm a)
  have "snd ` set (rx_all (Grp nm a) g s) = snd ` set (rx_all a g s)"
    by (simp add: image_image case_prod_beta)
  then show ?case unfolding Grp.IH by simp
qed

lemma matches_prefix_lang: "matches_prefix r s = (\<exists>p q. s = p @ q \<and> p \<in> lang r)"
proof -
  have "(rx_all r Map.empty s \<noteq> []) = (snd ` set (rx_all r Map.empty s) \<noteq> {})" by simp
  also have "\<dots> = (\<exists>p q. s = p @ q \<and> p \<in> lang r)" unfolding rx_all_rests by blast
  finally have "(rx_all r Map.empty s \<noteq> []) = (\<exists>p q. s = p @ q \<and> p \<in> lang r)" .
  moreover have "matches_prefix r s = (rx_all r Map.empty s \<noteq> [])"
    by (cases "rx_all r Map.empty s") (simp_all add: matches_prefix_def)
  ultimately show ?thesis by simp
qed

section \<open>When the format failure is raised\<close>

lemma try_bind_no_format_error:
  "\<not> is_format_error r \<Longrightarrow> (\<And>v. \<not> is_format_error (k v)) \<Longrightarrow> \<not> is_format_error (try_bind r k)"
  by (cases r) (auto simp: try_bind_def is_format_error_def split: error.splits)

lemma int_py_no_format_error: "\<not> is_format_error (int_py s)"
  by (simp add: int_py_def parse_decimal_def is_format_error_def Let_def)

lemma int_field_no_format_error: "\<not> is_format_error (int_field g x)"
  by (cases "g x") (simp_all add: int_field_def int_py_no_format_error, simp add: is_format_error_def)

lemma int_group_no_format_error: "\<not> is_format_error (int_group g x)"
  by (cases "g x") (simp_all add: int_group_def int_py_no_format_error, simp add: is_format_error_def)

lemma datetime_new_no_format_error: "\<not> is_format_error (datetime_new y m d h mi s us z)"
  by (simp add: datetime_new_def is_format_error_def)

lemma FixedOffset_no_format_error: "\<not> is_format_error (FixedOffset n)"
  by (simp add: FixedOffset_def is_format_error_def)

lemma parse_date_no_format_error: "\<not> is_format_error (parse_date g z)"
  unfolding parse_date_def Let_def
  by (intro try_bind_no_format_error int_field_no_format_error datetime_new_no_format_error)

lemma offset_branch_no_format_error:
  "\<not> is_format_error
       (try_bind (int_group g ''tz_hr'') (\<lambda>tz_hr.
        try_bind (int_group g ''tz_min'') (\<lambda>tz_min.
        try_bind (FixedOffset (tz_hr * 60 + tz_min)) (\<lambda>tz.
        parse_date g (Some tz)))))"
  by (intro try_bind_no_format_error int_group_no_format_error FixedOffset_no_format_error
      parse_date_no_format_error)

lemma DateTime_from_xml_raw_format_error:
  "is_format_error (DateTime_from_xml_raw e) =
     (\<exists>s. etext e = Some s
          \<and> \<not> matches_prefix (Cat datetime_pattern (Lit CHR ''Z'')) s
          \<and> \<not> matches_prefix (Cat datetime_pattern offset_pattern) s
          \<and> \<not> matches_prefix datetime_pattern s)"
proof (cases "etext e")
  case None
  then show ?thesis
    by (simp add: DateTime_from_xml_raw_def utc_re_def try_bind_def re_match_def is_format_error_def)
next
  case (Some s)
  show ?thesis
  proof (cases "rx_all (Cat datetime_pattern (Lit CHR ''Z'')) Map.empty s")
    case (Cons p ps)
    then show ?thesis using Some parse_date_no_format_error [of "fst p" "Some UTC"]
      by (simp add: DateTime_from_xml_raw_def utc_re_def try_bind_def re_match_def matches_prefix_def
          case_prod_beta del: rx_all.simps)
  next
    case Nil
    note u = this
    show ?thesis
    proof (cases "rx_all (Cat datetime_pattern offset_pattern) Map.empty s")
      case (Cons p ps)
      then show ?thesis using Some u offset_branch_no_format_error [of "fst p"]
        by (simp add: DateTime_from_xml_raw_def utc_re_def offset_re_def try_bind_def re_match_def
            matches_prefix_def case_prod_beta del: rx_all.simps)
    next
      case Nil
      note off = this
      show ?thesis
      proof (cases "rx_all datetime_pattern Map.empty s")
        case Nil
        then show ?thesis using Some u off
          by (simp add: DateTime_from_xml_raw_def utc_re_def offset_re_def local_re_def try_bind_def
              re_match_def matches_prefix_def is_format_error_def del: rx_all.simps)
      next
        case (Cons p ps)
        then show ?thesis using Some u off parse_date_no_format_error [of "fst p" None]
          by (simp add: DateTime_from_xml_raw_def utc_re_def offset_re_def local_re_def try_bind_def
              re_match_def matches_prefix_def case_prod_beta del: rx_all.simps)
      qed
    qed
  qed
qed

lemma grammars:
  "grammar utc_re = lang (Cat datetime_pattern (Lit CHR ''Z''))"
  "grammar offset_re = lang (Cat datetime_pattern offset_pattern)"
  "grammar local_re = lang datetime_pattern"
  by (simp_all add: utc_re_def offset_re_def local_re_def)

section \<open>What the reader returns on a text that matches\<close>

lemma is_frac_part:
  "is_frac F \<Longrightarrow> frac_part F G0 (if F = [] then G0 else G0(''sec_frac'' \<mapsto> F))"
  by (cases F) (auto simp: is_frac_def frac_part_def)

lemma parse_date_frac:
  assumes dg: "digits_n 4 y" "digits_n 2 m" "digits_n 2 d" "digits_n 2 h" "digits_n 2 mi" "digits_n 2 s"
    and "G ''year'' = Some y" "G ''month'' = Some m" "G ''day'' = Some d"
        "G ''hr'' = Some h" "G ''min'' = Some mi" "G ''sec'' = Some s"
    and "G ''sec_frac'' = (if F = [] then None else Some F)"
  shows "parse_date G z =
           datetime_new (int (nat_of_digits y)) (int (nat_of_digits m)) (int (nat_of_digits d))
             (int (nat_of_digits h)) (int (nat_of_digits mi)) (int (nat_of_digits s))
             (microsec_text F) z"
  using parse_date_groups [OF assms(1-12), of z] assms(13) by (simp add: microsec_text_def)

lemma reader_utc:
  assumes dg: "digits_n 4 y" "digits_n 2 m" "digits_n 2 d" "digits_n 2 h" "digits_n 2 mi" "digits_n 2 s"
    and sep: "sep = CHR ''T'' \<or> sep = CHR '' ''"
    and F: "is_frac F"
  shows "DateTime_from_xml_raw (Element tg a (Some (dt_text y m d sep h mi s @ F @ CHR ''Z'' # r)) cs)
           = datetime_new (int (nat_of_digits y)) (int (nat_of_digits m)) (int (nat_of_digits d))
               (int (nat_of_digits h)) (int (nat_of_digits mi)) (int (nat_of_digits s))
               (microsec_text F) (Some UTC)"
proof -
  let ?G = "if F = [] then dt_groups y m d h mi s else (dt_groups y m d h mi s)(''sec_frac'' \<mapsto> F)"
  have fp: "frac_part F (dt_groups y m d h mi s) ?G" using F by (rule is_frac_part)
  have "DateTime_from_xml_raw (Element tg a (Some (dt_text y m d sep h mi s @ F @ CHR ''Z'' # r)) cs)
          = parse_date ?G (Some UTC)"
    by (rule DateTime_from_xml_raw_utc [OF dg sep fp])
  also have "\<dots> = datetime_new (int (nat_of_digits y)) (int (nat_of_digits m)) (int (nat_of_digits d))
               (int (nat_of_digits h)) (int (nat_of_digits mi)) (int (nat_of_digits s))
               (microsec_text F) (Some UTC)"
    by (rule parse_date_frac [OF dg frac_part_groups [OF fp]])
  finally show ?thesis .
qed

lemma reader_offset:
  assumes dg: "digits_n 4 y" "digits_n 2 m" "digits_n 2 d" "digits_n 2 h" "digits_n 2 mi" "digits_n 2 s"
    and sep: "sep = CHR ''T'' \<or> sep = CHR '' ''"
    and F: "is_frac F"
    and tz: "digits_n 2 hh" "digits_n 2 mm" "sg = CHR ''+'' \<or> sg = CHR ''-''"
  shows "DateTime_from_xml_raw
           (Element tg a (Some (dt_text y m d sep h mi s @ F @ sg # hh @ CHR '':'' # mm @ r)) cs)
           = try_bind (FixedOffset ((if sg = CHR ''-'' then - int (nat_of_digits hh)
                                     else int (nat_of_digits hh)) * 60 + int (nat_of_digits mm)))
               (\<lambda>z. datetime_new (int (nat_of_digits y)) (int (nat_of_digits m))
                      (int (nat_of_digits d)) (int (nat_of_digits h)) (int (nat_of_digits mi))
                      (int (nat_of_digits s)) (microsec_text F) (Some z))"
proof -
  let ?G = "if F = [] then dt_groups y m d h mi s else (dt_groups y m d h mi s)(''sec_frac'' \<mapsto> F)"
  let ?G' = "?G(''tz_hr'' \<mapsto> sg # hh, ''tz_min'' \<mapsto> mm)"
  have fp: "frac_part F (dt_groups y m d h mi s) ?G" using F by (rule is_frac_part)
  have g: "?G' ''year'' = Some y" "?G' ''month'' = Some m" "?G' ''day'' = Some d"
        "?G' ''hr'' = Some h" "?G' ''min'' = Some mi" "?G' ''sec'' = Some s"
        "?G' ''sec_frac'' = (if F = [] then None else Some F)"
    using frac_part_groups [OF fp] by simp_all
  have "parse_date ?G' (Some z)
          = datetime_new (int (nat_of_digits y)) (int (nat_of_digits m))
                      (int (nat_of_digits d)) (int (nat_of_digits h)) (int (nat_of_digits mi))
                      (int (nat_of_digits s)) (microsec_text F) (Some z)" for z
    by (rule parse_date_frac [OF dg g])
  then show ?thesis
    using DateTime_from_xml_raw_offset [OF dg sep fp tz, of tg a r cs] by simp
qed

lemma reader_local:
  assumes dg: "digits_n 4 y" "digits_n 2 m" "digits_n 2 d" "digits_n 2 h" "digits_n 2 mi" "digits_n 2 s"
    and sep: "sep = CHR ''T'' \<or> sep = CHR '' ''"
    and F: "is_frac F"
    and r: "frac_end F r" "r = [] \<or> hd r \<noteq> CHR ''Z''" "\<not> starts_offset r"
  shows "DateTime_from_xml_raw (Element tg a (Some (dt_text y m d sep h mi s @ F @ r)) cs)
           = datetime_new (int (nat_of_digits y)) (int (nat_of_digits m)) (int (nat_of_digits d))
               (int (nat_of_digits h)) (int (nat_of_digits mi)) (int (nat_of_digits s))
               (microsec_text F) None"
proof -
  let ?G = "if F = [] then dt_groups y m d h mi s else (dt_groups y m d h mi s)(''sec_frac'' \<mapsto> F)"
  have fp: "frac_part F (dt_groups y m d h mi s) ?G" using F by (rule is_frac_part)
  have "DateTime_from_xml_raw (Element tg a (Some (dt_text y m d sep h mi s @ F @ r)) cs)
          = parse_date ?G None"
    by (rule DateTime_from_xml_raw_local [OF dg sep fp r])
  also have "\<dots> = datetime_new (int (nat_of_digits y)) (int (nat_of_digits m)) (int (nat_of_digits d))
               (int (nat_of_digits h)) (int (nat_of_digits mi)) (int (nat_of_digits s))
               (microsec_text F) None"
    by (rule parse_date_frac [OF dg frac_part_groups [OF fp]])
  finally show ?thesis .
qed

lemma microsec_text_frac:
  "microsec_text (CHR ''.'' # fs)
     = \<lfloor>binary64 (binary64 (of_nat (nat_of_digits fs) / 10 ^ length fs) * 10 ^ 6)\<rfloor>"
  by (simp add: microsec_text_def microsec_of_def float_sec_frac_def)

lemma microsec_text_none: "microsec_text [] = 0"
  by (simp add: microsec_text_def microsec_of_0)

section \<open>The texts in the grammar of the datetime pattern\<close>

lemma lang_grp: "p \<in> lang (Grp nm (Rep n digit)) \<Longrightarrow> digits_n n p"
  by (auto simp: digits_n_def list_all_iff is_digit_in_digit)

lemma lang_cat: "p \<in> lang (Cat a b) \<Longrightarrow> \<exists>u v. p = u @ v \<and> u \<in> lang a \<and> v \<in> lang b"
  by auto

lemma lang_grp_cat:
  "p \<in> lang (Cat (Grp nm (Rep n digit)) b) \<Longrightarrow> \<exists>ds v. p = ds @ v \<and> digits_n n ds \<and> v \<in> lang b"
proof -
  assume "p \<in> lang (Cat (Grp nm (Rep n digit)) b)"
  then obtain u v where "p = u @ v" "u \<in> lang (Grp nm (Rep n digit))" "v \<in> lang b"
    using lang_cat by blast
  then show ?thesis using lang_grp by blast
qed

lemma lang_lit_cat: "p \<in> lang (Cat (Lit c) b) \<Longrightarrow> \<exists>v. p = c # v \<and> v \<in> lang b"
  by auto

lemma lang_cls_cat: "p \<in> lang (Cat (Cls cs) b) \<Longrightarrow> \<exists>c v. p = c # v \<and> c \<in> set cs \<and> v \<in> lang b"
  by auto

lemma lang_date_pattern:
  assumes "u \<in> lang date_pattern"
  shows "\<exists>y m d. u = y @ ''-'' @ m @ ''-'' @ d \<and> digits_n 4 y \<and> digits_n 2 m \<and> digits_n 2 d"
proof -
  have "u \<in> lang (Cat (Grp ''year'' (Rep 4 digit)) (Cat (Lit CHR ''-'')
          (Cat (Grp ''month'' (Rep 2 digit)) (Cat (Lit CHR ''-'') (Grp ''day'' (Rep 2 digit))))))"
    using assms by (simp only: date_pattern_def cats.simps)
  then obtain y v1 where 1: "u = y @ v1" "digits_n 4 y"
    and "v1 \<in> lang (Cat (Lit CHR ''-'')
          (Cat (Grp ''month'' (Rep 2 digit)) (Cat (Lit CHR ''-'') (Grp ''day'' (Rep 2 digit)))))"
    using lang_grp_cat by blast
  then obtain v2 where 2: "v1 = CHR ''-'' # v2"
    and "v2 \<in> lang (Cat (Grp ''month'' (Rep 2 digit)) (Cat (Lit CHR ''-'') (Grp ''day'' (Rep 2 digit))))"
    using lang_lit_cat by blast
  then obtain m v3 where 3: "v2 = m @ v3" "digits_n 2 m"
    and "v3 \<in> lang (Cat (Lit CHR ''-'') (Grp ''day'' (Rep 2 digit)))"
    using lang_grp_cat by blast
  then obtain d where 4: "v3 = CHR ''-'' # d" and "d \<in> lang (Grp ''day'' (Rep 2 digit))"
    using lang_lit_cat by blast
  then have 5: "digits_n 2 d" using lang_grp by blast
  have "u = y @ ''-'' @ m @ ''-'' @ d" by (simp add: 1 2 3 4)
  then show ?thesis using 1 3 5 by blast
qed

lemma lang_time_pattern:
  assumes "w \<in> lang time_pattern"
  shows "\<exists>h mi sc f. w = h @ '':'' @ mi @ '':'' @ sc @ f \<and> digits_n 2 h \<and> digits_n 2 mi \<and> digits_n 2 sc"
proof -
  let ?opt = "Opt (Grp ''sec_frac'' (Cat (Lit CHR ''.'') (Plus digit)))"
  have "w \<in> lang (Cat (Grp ''hr'' (Rep 2 digit)) (Cat (Lit CHR '':'')
          (Cat (Grp ''min'' (Rep 2 digit)) (Cat (Lit CHR '':'')
          (Cat (Grp ''sec'' (Rep 2 digit)) ?opt)))))"
    using assms by (simp only: time_pattern_def cats.simps)
  then obtain h v1 where 1: "w = h @ v1" "digits_n 2 h"
    and "v1 \<in> lang (Cat (Lit CHR '':'')
          (Cat (Grp ''min'' (Rep 2 digit)) (Cat (Lit CHR '':'')
          (Cat (Grp ''sec'' (Rep 2 digit)) ?opt))))"
    using lang_grp_cat by blast
  then obtain v2 where 2: "v1 = CHR '':'' # v2"
    and "v2 \<in> lang (Cat (Grp ''min'' (Rep 2 digit)) (Cat (Lit CHR '':'')
          (Cat (Grp ''sec'' (Rep 2 digit)) ?opt)))"
    using lang_lit_cat by blast
  then obtain mi v3 where 3: "v2 = mi @ v3" "digits_n 2 mi"
    and "v3 \<in> lang (Cat (Lit CHR '':'') (Cat (Grp ''sec'' (Rep 2 digit)) ?opt))"
    using lang_grp_cat by blast
  then obtain v4 where 4: "v3 = CHR '':'' # v4"
    and "v4 \<in> lang (Cat (Grp ''sec'' (Rep 2 digit)) ?opt)"
    using lang_lit_cat by blast
  then obtain sc f where 5: "v4 = sc @ f" "digits_n 2 sc"
    using lang_grp_cat by blast
  have "w = h @ '':'' @ mi @ '':'' @ sc @ f" by (simp add: 1 2 3 4 5)
  then show ?thesis using 1 3 5 by blast
qed

lemma lang_datetime_pattern:
  assumes "p \<in> lang datetime_pattern"
  shows "\<exists>y m d sep h mi sc f. p = dt_text y m d sep h mi sc @ f
           \<and> digits_n 4 y \<and> digits_n 2 m \<and> digits_n 2 d \<and> digits_n 2 h \<and> digits_n 2 mi
           \<and> digits_n 2 sc \<and> (sep = CHR ''T'' \<or> sep = CHR '' '')"
proof -
  have "p \<in> lang (Cat date_pattern (Cat (Cls ''T '') time_pattern))"
    using assms by (simp only: datetime_pattern_def)
  then obtain u v where 1: "p = u @ v" "u \<in> lang date_pattern"
    and "v \<in> lang (Cat (Cls ''T '') time_pattern)"
    using lang_cat by blast
  then obtain sep w where 2: "v = sep # w" "sep \<in> set ''T ''" "w \<in> lang time_pattern"
    using lang_cls_cat by blast
  obtain y m d where 3: "u = y @ ''-'' @ m @ ''-'' @ d" "digits_n 4 y" "digits_n 2 m" "digits_n 2 d"
    using lang_date_pattern [OF 1(2)] by blast
  obtain h mi sc f where 4: "w = h @ '':'' @ mi @ '':'' @ sc @ f"
    "digits_n 2 h" "digits_n 2 mi" "digits_n 2 sc"
    using lang_time_pattern [OF 2(3)] by blast
  have "p = dt_text y m d sep h mi sc @ f" by (simp add: 1 2 3 4 dt_text_def)
  moreover have "sep = CHR ''T'' \<or> sep = CHR '' ''" using 2(2) by simp
  ultimately show ?thesis using 3 4 by blast
qed

lemma frac_split:
  "\<exists>F r. rest = F @ r \<and> is_frac F \<and> frac_end F r"
proof (cases "starts_frac rest")
  case False
  then have "rest = [] @ rest \<and> is_frac [] \<and> frac_end [] rest"
    by (simp add: is_frac_def frac_end_def)
  then show ?thesis by blast
next
  case True
  then obtain d r0 where rest: "rest = CHR ''.'' # d # r0" and d: "is_digit d"
    by (auto simp: starts_frac_def split: list.splits)
  define fs where "fs = takeWhile is_digit (d # r0)"
  define r where "r = dropWhile is_digit (d # r0)"
  have 1: "rest = (CHR ''.'' # fs) @ r" by (simp add: rest fs_def r_def)
  have 2: "fs \<noteq> []" using d by (simp add: fs_def)
  have 3: "list_all is_digit fs" unfolding fs_def list_all_iff by (auto dest: set_takeWhileD)
  have 4: "r = [] \<or> \<not> is_digit (hd r)" unfolding r_def using hd_dropWhile by blast
  have "is_frac (CHR ''.'' # fs)" using 2 3 by (simp add: is_frac_def)
  moreover have "frac_end (CHR ''.'' # fs) r" using 4 by (simp add: frac_end_def)
  ultimately show ?thesis using 1 by blast
qed

lemma datetime_new_result:
  "datetime_new y m d h mi s us z = Inl ValueError
   \<or> (\<exists>t. datetime_new y m d h mi s us z = Inr t
           \<and> valid_date_fields (year t) (month t) (day t)
           \<and> valid_time_fields (hour t) (minute t) (second t) (microsecond t)
           \<and> tzinfo t = z)"
  by (simp add: datetime_new_def)

lemma FixedOffset_result:
  "FixedOffset n = Inl ValueError \<or> (\<exists>z. FixedOffset n = Inr z \<and> valid_tz (Some z))"
  by (simp add: FixedOffset_def)

section \<open>A text that matches is read as a valid datetime or refused\<close>

lemma reader_matching_result:
  assumes "matches_prefix datetime_pattern txt"
  shows "DateTime_from_xml_raw (Element tg a (Some txt) cs) = Inl ValueError
         \<or> (\<exists>t. DateTime_from_xml_raw (Element tg a (Some txt) cs) = Inr t \<and> valid_datetime t)"
proof -
  obtain p q where s: "txt = p @ q" and p: "p \<in> lang datetime_pattern"
    using assms unfolding matches_prefix_lang by blast
  obtain y m d sep h mi sc f where p': "p = dt_text y m d sep h mi sc @ f"
    and dg: "digits_n 4 y" "digits_n 2 m" "digits_n 2 d" "digits_n 2 h" "digits_n 2 mi" "digits_n 2 sc"
    and sep: "sep = CHR ''T'' \<or> sep = CHR '' ''"
    using lang_datetime_pattern [OF p] by blast
  obtain F r where fr: "f @ q = F @ r" and F: "is_frac F" and fe: "frac_end F r"
    using frac_split [of "f @ q"] by blast
  have tx: "txt = dt_text y m d sep h mi sc @ F @ r" using s p' fr by simp
  define new where "new = datetime_new (int (nat_of_digits y)) (int (nat_of_digits m))
               (int (nat_of_digits d)) (int (nat_of_digits h)) (int (nat_of_digits mi))
               (int (nat_of_digits sc)) (microsec_text F)"
  have new: "new z = Inl ValueError \<or> (\<exists>t. new z = Inr t \<and> valid_datetime t)"
    if "valid_tz z" for z
    using datetime_new_result [of "int (nat_of_digits y)" "int (nat_of_digits m)"
        "int (nat_of_digits d)" "int (nat_of_digits h)" "int (nat_of_digits mi)"
        "int (nat_of_digits sc)" "microsec_text F" z] that
    unfolding new_def valid_datetime_def by auto
  consider r' where "r = CHR ''Z'' # r'" | "starts_offset r" "r = [] \<or> hd r \<noteq> CHR ''Z''"
    | "\<not> starts_offset r" "r = [] \<or> hd r \<noteq> CHR ''Z''"
    by (cases r) auto
  then show ?thesis
  proof cases
    case 1
    have "DateTime_from_xml_raw (Element tg a (Some txt) cs) = new (Some UTC)"
      unfolding tx 1 new_def by (rule reader_utc [OF dg sep F])
    then show ?thesis using new [of "Some UTC"] by simp
  next
    case 2
    obtain sg hh mm r' where r: "r = sg # hh @ CHR '':'' # mm @ r'"
      and tz: "digits_n 2 hh" "digits_n 2 mm" "sg = CHR ''+'' \<or> sg = CHR ''-''"
      using starts_offset_shape [OF 2(1)] by blast
    define off where "off = (if sg = CHR ''-'' then - int (nat_of_digits hh)
                             else int (nat_of_digits hh)) * 60 + int (nat_of_digits mm)"
    have res: "DateTime_from_xml_raw (Element tg a (Some txt) cs)
                 = try_bind (FixedOffset off) (\<lambda>z. new (Some z))"
      unfolding tx r new_def off_def by (rule reader_offset [OF dg sep F tz])
    from FixedOffset_result [of off] show ?thesis
    proof
      assume "FixedOffset off = Inl ValueError"
      then show ?thesis using res by (simp add: try_bind_def)
    next
      assume "\<exists>z. FixedOffset off = Inr z \<and> valid_tz (Some z)"
      then obtain z where z: "FixedOffset off = Inr z" "valid_tz (Some z)" by blast
      then show ?thesis using res new [OF z(2)] by (simp add: try_bind_def)
    qed
  next
    case 3
    have "DateTime_from_xml_raw (Element tg a (Some txt) cs) = new None"
      unfolding tx new_def by (rule reader_local [OF dg sep F fe 3(2) 3(1)])
    then show ?thesis using new [of None] by simp
  qed
qed

section \<open>Matching by prefix\<close>

lemma prefix_of_longer_pattern:
  assumes "txt = p @ q" "p \<in> lang (Cat datetime_pattern k)"
  shows "matches_prefix datetime_pattern txt"
proof -
  obtain u v where "p = u @ v" "u \<in> lang datetime_pattern"
    using assms(2) lang_cat by blast
  then have "txt = u @ (v @ q) \<and> u \<in> lang datetime_pattern" using assms(1) by simp
  then show ?thesis unfolding matches_prefix_lang by blast
qed

lemma prefix_in_some_grammar:
  assumes "txt = p @ q" "p \<in> grammar utc_re \<union> grammar offset_re \<union> grammar local_re"
  shows "matches_prefix datetime_pattern txt"
proof -
  consider "p \<in> lang (Cat datetime_pattern (Lit CHR ''Z''))"
    | "p \<in> lang (Cat datetime_pattern offset_pattern)" | "p \<in> lang datetime_pattern"
    using assms(2) unfolding grammars by blast
  then show ?thesis
  proof cases
    case 1
    then show ?thesis using assms(1) by (rule prefix_of_longer_pattern [rotated])
  next
    case 2
    then show ?thesis using assms(1) by (rule prefix_of_longer_pattern [rotated])
  next
    case 3
    then show ?thesis using assms(1) unfolding matches_prefix_lang by blast
  qed
qed

lemma format_error_iff_no_prefix:
  "is_format_error (DateTime_from_xml_raw e) =
     (\<exists>txt. etext e = Some txt
          \<and> \<not> (\<exists>p q. txt = p @ q \<and> p \<in> grammar utc_re \<union> grammar offset_re \<union> grammar local_re))"
proof -
  have u: "(\<exists>p q. s = p @ q \<and> p \<in> X \<union> Y \<union> Z)
             = ((\<exists>p q. s = p @ q \<and> p \<in> X) \<or> (\<exists>p q. s = p @ q \<and> p \<in> Y) \<or> (\<exists>p q. s = p @ q \<and> p \<in> Z))"
    for s :: string and X Y Z
    by blast
  show ?thesis
    unfolding DateTime_from_xml_raw_format_error matches_prefix_lang grammars u by simp
qed

text \<open>
  C10, amended.  Matching is by prefix: no pattern is anchored at the end of the text.
  Take a text that starts with \<^verbatim>\<open>YYYY-MM-DD\<close>, a separator \<^verbatim>\<open>T\<close> or space, and
  \<^verbatim>\<open>HH:MM:SS\<close>, then an optional fraction \<open>F\<close> (nothing, or a point and digits).
  If \<^verbatim>\<open>Z\<close> follows, whatever comes after it (\<open>r1\<close>) is ignored and the result is what
  the constructor of datetimes makes of the captured fields, in UTC.  If a sign, two
  digits, a colon and two digits follow, whatever comes after them (\<open>r2\<close>) is ignored and
  the result is what the constructor makes of the fields and the fixed offset.  If the
  rest \<open>r3\<close> goes on neither with \<^verbatim>\<open>Z\<close> nor with an offset (and does not prolong the
  fraction), it is ignored and the result is what the constructor makes of the fields,
  without zone.  The failure "not in known format" is raised exactly when the element has
  a text of which no prefix is in the grammar of any of the three patterns.  Last, for
  every text with a prefix in one of the three grammars the reader either returns a valid
  datetime or raises \<^verbatim>\<open>ValueError\<close>, which is what the constructors raise on fields out
  of range: a matching text is accepted only when its fields form a datetime.
\<close>

theorem DateTime_from_xml_prefix_match:
  assumes dg: "digits_n 4 y" "digits_n 2 m" "digits_n 2 d" "digits_n 2 h" "digits_n 2 mi" "digits_n 2 s"
    and sep: "sep = CHR ''T'' \<or> sep = CHR '' ''"
    and F: "is_frac F"
    and tz: "digits_n 2 hh" "digits_n 2 mm" "sg = CHR ''+'' \<or> sg = CHR ''-''"
    and r3: "frac_end F r3" "r3 = [] \<or> hd r3 \<noteq> CHR ''Z''" "\<not> starts_offset r3"
  shows "DateTime_from_xml_raw
           (Element tg a (Some (dt_text y m d sep h mi s @ F @ CHR ''Z'' # r1)) cs)
           = datetime_new (int (nat_of_digits y)) (int (nat_of_digits m)) (int (nat_of_digits d))
               (int (nat_of_digits h)) (int (nat_of_digits mi)) (int (nat_of_digits s))
               (microsec_text F) (Some UTC)
         \<and> DateTime_from_xml_raw
             (Element tg a (Some (dt_text y m d sep h mi s @ F @ sg # hh @ CHR '':'' # mm @ r2)) cs)
             = try_bind (FixedOffset ((if sg = CHR ''-'' then - int (nat_of_digits hh)
                                       else int (nat_of_digits hh)) * 60 + int (nat_of_digits mm)))
                 (\<lambda>z. datetime_new (int (nat_of_digits y)) (int (nat_of_digits m))
                        (int (nat_of_digits d)) (int (nat_of_digits h)) (int (nat_of_digits mi))
                        (int (nat_of_digits s)) (microsec_text F) (Some z))
         \<and> DateTime_from_xml_raw (Element tg a (Some (dt_text y m d sep h mi s @ F @ r3)) cs)
             = datetime_new (int (nat_of_digits y)) (int (nat_of_digits m)) (int (nat_of_digits d))
                 (int (nat_of_digits h)) (int (nat_of_digits mi)) (int (nat_of_digits s))
                 (microsec_text F) None
         \<and> (is_format_error (DateTime_from_xml_raw e) =
               (\<exists>txt. etext e = Some txt
                  \<and> \<not> (\<exists>p q. txt = p @ q
                           \<and> p \<in> grammar utc_re \<union> grammar offset_re \<union> grammar local_re)))
         \<and> (\<forall>txt. (\<exists>p q. txt = p @ q
                           \<and> p \<in> grammar utc_re \<union> grammar offset_re \<union> grammar local_re)
               \<longrightarrow> DateTime_from_xml_raw (Element tg a (Some txt) cs) = Inl ValueError
                   \<or> (\<exists>t. DateTime_from_xml_raw (Element tg a (Some txt) cs) = Inr t
                           \<and> valid_datetime t))"
proof (intro conjI allI impI)
  show "DateTime_from_xml_raw
           (Element tg a (Some (dt_text y m d sep h mi s @ F @ CHR ''Z'' # r1)) cs)
           = datetime_new (int (nat_of_digits y)) (int (nat_of_digits m)) (int (nat_of_digits d))
               (int (nat_of_digits h)) (int (nat_of_digits mi)) (int (nat_of_digits s))
               (microsec_text F) (Some UTC)"
    by (rule reader_utc [OF dg sep F])
next
  show "DateTime_from_xml_raw
             (Element tg a (Some (dt_text y m d sep h mi s @ F @ sg # hh @ CHR '':'' # mm @ r2)) cs)
             = try_bind (FixedOffset ((if sg = CHR ''-'' then - int (nat_of_digits hh)
                                       else int (nat_of_digits hh)) * 60 + int (nat_of_digits mm)))
                 (\<lambda>z. datetime_new (int (nat_of_digits y)) (int (nat_of_digits m))
                        (int (nat_of_digits d)) (int (nat_of_digits h)) (int (nat_of_digits mi))
                        (int (nat_of_digits s)) (microsec_text F) (Some z))"
    by (rule reader_offset [OF dg sep F tz])
next
  show "DateTime_from_xml_raw (Element tg a (Some (dt_text y m d sep h mi s @ F @ r3)) cs)
             = datetime_new (int (nat_of_digits y)) (int (nat_of_digits m)) (int (nat_of_digits d))
                 (int (nat_of_digits h)) (int (nat_of_digits mi)) (int (nat_of_digits s))
                 (microsec_text F) None"
    by (rule reader_local [OF dg sep F r3])
next
  show "is_format_error (DateTime_from_xml_raw e) =
               (\<exists>txt. etext e = Some txt
                  \<and> \<not> (\<exists>p q. txt = p @ q
                           \<and> p \<in> grammar utc_re \<union> grammar offset_re \<union> grammar local_re))"
    by (rule format_error_iff_no_prefix)
next
  fix tx
  assume "\<exists>p q. tx = p @ q \<and> p \<in> grammar utc_re \<union> grammar offset_re \<union> grammar local_re"
  then obtain p q where "tx = p @ q" "p \<in> grammar utc_re \<union> grammar offset_re \<union> grammar local_re"
    by blast
  then have "matches_prefix datetime_pattern tx" by (rule prefix_in_some_grammar)
  then show "DateTime_from_xml_raw (Element tg a (Some tx) cs) = Inl ValueError
                   \<or> (\<exists>t. DateTime_from_xml_raw (Element tg a (Some tx) cs) = Inr t
                           \<and> valid_datetime t)"
    by (rule reader_matching_result)
qed

theorem DateTime_from_xml_prefix_match_witness:
  "digits_n 4 ''2020'' \<and> digits_n 2 ''01'' \<and> digits_n 2 ''15'' \<and> digits_n 2 ''10''
   \<and> digits_n 2 ''30'' \<and> digits_n 2 ''00'' \<and> is_frac [] \<and> digits_n 2 ''05''
   \<and> frac_end [] ''garbage'' \<and> hd ''garbage'' \<noteq> CHR ''Z'' \<and> \<not> starts_offset ''garbage''
   \<and> DateTime_from_xml_raw (Element ''{tns}retval'' [] (Some ''2020-01-15T10:30:00Zgarbage'') [])
       = Inr \<lparr>year = 2020, month = 1, day = 15, hour = 10, minute = 30, second = 0,
               microsecond = 0, tzinfo = Some UTC\<rparr>
   \<and> DateTime_from_xml_raw (Element ''{tns}retval'' [] (Some ''2020-01-15T10:30:00+05:30garbage'') [])
       = Inr \<lparr>year = 2020, month = 1, day = 15, hour = 10, minute = 30, second = 0,
               microsecond = 0, tzinfo = Some (FixedOffsetTZ 330)\<rparr>
   \<and> DateTime_from_xml_raw (Element ''{tns}retval'' [] (Some ''2020-01-15T10:30:00garbage'') [])
       = Inr \<lparr>year = 2020, month = 1, day = 15, hour = 10, minute = 30, second = 0,
               microsecond = 0, tzinfo = None\<rparr>"
proof -
  have h: "digits_n 4 ''2020''" "digits_n 2 ''01''" "digits_n 2 ''15''" "digits_n 2 ''10''"
    "digits_n 2 ''30''" "digits_n 2 ''00''" "CHR ''T'' = CHR ''T'' \<or> CHR ''T'' = CHR '' ''"
    "is_frac []" "digits_n 2 ''05''" "digits_n 2 ''30''" "CHR ''+'' = CHR ''+'' \<or> CHR ''+'' = CHR ''-''"
    "frac_end [] ''garbage''" "''garbage'' = [] \<or> hd ''garbage'' \<noteq> CHR ''Z''"
    "\<not> starts_offset ''garbage''"
    by (simp_all add: digits_n_def is_digit_def is_frac_def frac_end_def starts_frac_def
        starts_offset_def)
  note t = DateTime_from_xml_prefix_match
    [OF h, of "''{tns}retval''" "[]" "''garbage''" "[]" "''garbage''"]
  have e: "datetime_new 2020 1 15 10 30 0 0 z
             = Inr \<lparr>year = 2020, month = 1, day = 15, hour = 10, minute = 30, second = 0,
                     microsecond = 0, tzinfo = z\<rparr>" for z
    by (simp add: datetime_new_def valid_date_fields_def valid_time_fields_def days_in_month_def)
  have n: "nat_of_digits ''2020'' = 2020" "nat_of_digits ''01'' = 1" "nat_of_digits ''15'' = 15"
    "nat_of_digits ''10'' = 10" "nat_of_digits ''30'' = 30" "nat_of_digits ''00'' = 0"
    "nat_of_digits ''05'' = 5"
    by (simp_all add: nat_of_digits_def digit_val_def)
  have 1: "DateTime_from_xml_raw (Element ''{tns}retval'' [] (Some ''2020-01-15T10:30:00Zgarbage'') [])
       = Inr \<lparr>year = 2020, month = 1, day = 15, hour = 10, minute = 30, second = 0,
               microsecond = 0, tzinfo = Some UTC\<rparr>"
    using t [THEN conjunct1] by (simp add: dt_text_def n microsec_text_none e)
  have 2: "DateTime_from_xml_raw (Element ''{tns}retval'' [] (Some ''2020-01-15T10:30:00+05:30garbage'') [])
       = Inr \<lparr>year = 2020, month = 1, day = 15, hour = 10, minute = 30, second = 0,
               microsecond = 0, tzinfo = Some (FixedOffsetTZ 330)\<rparr>"
    using t [THEN conjunct2, THEN conjunct1]
    by (simp add: dt_text_def n microsec_text_none e FixedOffset_def try_bind_def)
  have 3: "DateTime_from_xml_raw (Element ''{tns}retval'' [] (Some ''2020-01-15T10:30:00garbage'') [])
       = Inr \<lparr>year = 2020, month = 1, day = 15, hour = 10, minute = 30, second = 0,
               microsecond = 0, tzinfo = None\<rparr>"
    using t [THEN conjunct2, THEN conjunct2, THEN conjunct1]
    by (simp add: dt_text_def n microsec_text_none e)
  show ?thesis using h 1 2 3 by simp
qed

text \<open>
  C10, the claim as stated fails: a prefix of the text
  \<^verbatim>\<open>2020-13-40T10:30:00garbage\<close> matches the pattern without zone, and the text is not
  accepted: building the datetime raises \<^verbatim>\<open>ValueError\<close>, there being no month 13.  So
  a failure is raised although a prefix of the text matches a grammar.
\<close>

theorem DateTime_from_xml_out_of_range_counterexample:
  "matches_prefix datetime_pattern ''2020-13-40T10:30:00garbage''
   \<and> DateTime_from_xml (Element ''{tns}retval'' [] (Some ''2020-13-40T10:30:00garbage'') [])
       = Inl ValueError"
  by code_simp

section \<open>The fraction of a second\<close>

lemma frac_1234567: "\<lfloor>binary64 (binary64 (1234567 / 10000000) * 1000000)\<rfloor> = 123456"
  by code_simp

lemma round_1234567: "round (binary64 (binary64 (1234567 / 10000000) * 1000000)) = 123457"
  by code_simp

lemma frac_123: "\<lfloor>binary64 (binary64 (123 / 1000) * 1000000)\<rfloor> = 123000"
  by code_simp

lemma is_frac_point: "fs \<noteq> [] \<Longrightarrow> list_all is_digit fs \<Longrightarrow> is_frac (CHR ''.'' # fs)"
  by (simp add: is_frac_def)

lemma frac_end_point: "r = [] \<or> \<not> is_digit (hd r) \<Longrightarrow> frac_end (CHR ''.'' # fs) r"
  by (simp add: frac_end_def)

text \<open>
  C4, the claim as stated fails: for the fraction \<^verbatim>\<open>.1234567\<close> the reader gives 123456
  microseconds, where rounding the same product gives 123457.
\<close>

theorem sec_frac_rounding_counterexample:
  "DateTime_from_xml (Element ''{tns}retval'' [] (Some ''2020-01-15T10:30:00.1234567'') [])
     = Inr (Some \<lparr>year = 2020, month = 1, day = 15, hour = 10, minute = 30, second = 0,
                    microsecond = 123456, tzinfo = None\<rparr>)
   \<and> spec_microsec ''.1234567'' = 123457"
proof -
  have h: "digits_n 4 ''2020''" "digits_n 2 ''01''" "digits_n 2 ''15''" "digits_n 2 ''10''"
    "digits_n 2 ''30''" "digits_n 2 ''00''" "CHR ''T'' = CHR ''T'' \<or> CHR ''T'' = CHR '' ''"
    "is_frac ''.1234567''" "frac_end ''.1234567'' []" "[] = [] \<or> hd [] \<noteq> CHR ''Z''"
    "\<not> starts_offset []"
    by (simp_all add: digits_n_def is_digit_def is_frac_def frac_end_def starts_offset_def)
  have "DateTime_from_xml_raw (Element ''{tns}retval'' [] (Some ''2020-01-15T10:30:00.1234567'') [])
     = Inr \<lparr>year = 2020, month = 1, day = 15, hour = 10, minute = 30, second = 0,
                    microsecond = 123456, tzinfo = None\<rparr>"
    using reader_local [OF h, of "''{tns}retval''" "[]" "[]"]
    by (simp add: dt_text_def microsec_text_frac nat_of_digits_def digit_val_def frac_1234567
          datetime_new_def valid_date_fields_def valid_time_fields_def days_in_month_def)
  moreover have "spec_microsec ''.1234567'' = 123457"
    by (simp add: spec_microsec_def float_sec_frac_def nat_of_digits_def digit_val_def round_1234567)
  ultimately show ?thesis
    by (simp add: DateTime_from_xml_def nillable_element_def)
qed

text \<open>
  C4, amended.  When the text has a fraction of a second, a point and the digits \<open>fs\<close>,
  the reader takes the digits as a decimal fraction, in double precision, multiplies by
  ten to the power six and drops the fraction of the product: the microsecond is the floor
  of the product, not its rounding.  This holds in each of the three grammars and whatever
  follows the match: when \<^verbatim>\<open>Z\<close> follows the fraction (then any rest \<open>r1\<close>), when an
  offset follows it (then any rest \<open>r2\<close>), and when the rest \<open>r3\<close> goes on with neither
  a digit, nor \<^verbatim>\<open>Z\<close>, nor an offset.  The result is what the constructor of datetimes
  makes of the fields, that microsecond and the zone.  The text
  \<^verbatim>\<open>2020-02-29T23:59:59.123+05:30\<close> gives 123000 microseconds and the fraction
  \<^verbatim>\<open>.5\<close> gives 500000.
\<close>

theorem sec_frac_truncated:
  assumes dg: "digits_n 4 y" "digits_n 2 m" "digits_n 2 d" "digits_n 2 h" "digits_n 2 mi" "digits_n 2 s"
    and sep: "sep = CHR ''T'' \<or> sep = CHR '' ''"
    and fs: "fs \<noteq> []" "list_all is_digit fs"
    and tz: "digits_n 2 hh" "digits_n 2 mm" "sg = CHR ''+'' \<or> sg = CHR ''-''"
    and r3: "r3 = [] \<or> \<not> is_digit (hd r3)" "r3 = [] \<or> hd r3 \<noteq> CHR ''Z''" "\<not> starts_offset r3"
  shows "DateTime_from_xml_raw
           (Element tg a (Some (dt_text y m d sep h mi s @ ''.'' @ fs @ CHR ''Z'' # r1)) cs)
           = datetime_new (int (nat_of_digits y)) (int (nat_of_digits m)) (int (nat_of_digits d))
               (int (nat_of_digits h)) (int (nat_of_digits mi)) (int (nat_of_digits s))
               \<lfloor>binary64 (binary64 (of_nat (nat_of_digits fs) / 10 ^ length fs) * 10 ^ 6)\<rfloor>
               (Some UTC)
         \<and> DateTime_from_xml_raw
             (Element tg a
                (Some (dt_text y m d sep h mi s @ ''.'' @ fs @ sg # hh @ CHR '':'' # mm @ r2)) cs)
             = try_bind (FixedOffset ((if sg = CHR ''-'' then - int (nat_of_digits hh)
                                       else int (nat_of_digits hh)) * 60 + int (nat_of_digits mm)))
                 (\<lambda>z. datetime_new (int (nat_of_digits y)) (int (nat_of_digits m))
                        (int (nat_of_digits d)) (int (nat_of_digits h)) (int (nat_of_digits mi))
                        (int (nat_of_digits s))
                        \<lfloor>binary64 (binary64 (of_nat (nat_of_digits fs) / 10 ^ length fs) * 10 ^ 6)\<rfloor>
                        (Some z))
         \<and> DateTime_from_xml_raw
             (Element tg a (Some (dt_text y m d sep h mi s @ ''.'' @ fs @ r3)) cs)
             = datetime_new (int (nat_of_digits y)) (int (nat_of_digits m)) (int (nat_of_digits d))
                 (int (nat_of_digits h)) (int (nat_of_digits mi)) (int (nat_of_digits s))
                 \<lfloor>binary64 (binary64 (of_nat (nat_of_digits fs) / 10 ^ length fs) * 10 ^ 6)\<rfloor>
                 None
         \<and> DateTime_from_xml (Element ''{tns}retval'' [] (Some ''2020-02-29T23:59:59.123+05:30'') [])
             = Inr (Some \<lparr>year = 2020, month = 2, day = 29, hour = 23, minute = 59, second = 59,
                            microsecond = 123000, tzinfo = Some (FixedOffsetTZ 330)\<rparr>)
         \<and> DateTime_from_xml (Element ''{tns}retval'' [] (Some ''2020-01-15T10:30:00.5'') [])
             = Inr (Some \<lparr>year = 2020, month = 1, day = 15, hour = 10, minute = 30, second = 0,
                            microsecond = 500000, tzinfo = None\<rparr>)"
proof -
  have F: "is_frac (CHR ''.'' # fs)" using fs by (rule is_frac_point)
  have e: "frac_end (CHR ''.'' # fs) r3" using r3(1) by (rule frac_end_point)
  have 1: "DateTime_from_xml_raw
           (Element tg a (Some (dt_text y m d sep h mi s @ ''.'' @ fs @ CHR ''Z'' # r1)) cs)
           = datetime_new (int (nat_of_digits y)) (int (nat_of_digits m)) (int (nat_of_digits d))
               (int (nat_of_digits h)) (int (nat_of_digits mi)) (int (nat_of_digits s))
               \<lfloor>binary64 (binary64 (of_nat (nat_of_digits fs) / 10 ^ length fs) * 10 ^ 6)\<rfloor>
               (Some UTC)"
    using reader_utc [OF dg sep F, of tg a r1 cs] by (simp add: microsec_text_frac)
  have 2: "DateTime_from_xml_raw
             (Element tg a
                (Some (dt_text y m d sep h mi s @ ''.'' @ fs @ sg # hh @ CHR '':'' # mm @ r2)) cs)
             = try_bind (FixedOffset ((if sg = CHR ''-'' then - int (nat_of_digits hh)
                                       else int (nat_of_digits hh)) * 60 + int (nat_of_digits mm)))
                 (\<lambda>z. datetime_new (int (nat_of_digits y)) (int (nat_of_digits m))
                        (int (nat_of_digits d)) (int (nat_of_digits h)) (int (nat_of_digits mi))
                        (int (nat_of_digits s))
                        \<lfloor>binary64 (binary64 (of_nat (nat_of_digits fs) / 10 ^ length fs) * 10 ^ 6)\<rfloor>
                        (Some z))"
    using reader_offset [OF dg sep F tz, of tg a r2 cs] by (simp add: microsec_text_frac)
  have 3: "DateTime_from_xml_raw
             (Element tg a (Some (dt_text y m d sep h mi s @ ''.'' @ fs @ r3)) cs)
             = datetime_new (int (nat_of_digits y)) (int (nat_of_digits m)) (int (nat_of_digits d))
                 (int (nat_of_digits h)) (int (nat_of_digits mi)) (int (nat_of_digits s))
                 \<lfloor>binary64 (binary64 (of_nat (nat_of_digits fs) / 10 ^ length fs) * 10 ^ 6)\<rfloor>
                 None"
    using reader_local [OF dg sep F e r3(2,3), of tg a cs] by (simp add: microsec_text_frac)
  have 4: "DateTime_from_xml (Element ''{tns}retval'' [] (Some ''2020-02-29T23:59:59.123+05:30'') [])
             = Inr (Some \<lparr>year = 2020, month = 2, day = 29, hour = 23, minute = 59, second = 59,
                            microsecond = 123000, tzinfo = Some (FixedOffsetTZ 330)\<rparr>)"
    by code_simp
  have 5: "DateTime_from_xml (Element ''{tns}retval'' [] (Some ''2020-01-15T10:30:00.5'') [])
             = Inr (Some \<lparr>year = 2020, month = 1, day = 15, hour = 10, minute = 30, second = 0,
                            microsecond = 500000, tzinfo = None\<rparr>)"
    by code_simp
  show ?thesis using 1 2 3 4 5 by (intro conjI)
qed

theorem sec_frac_truncated_witness:
  "digits_n 4 ''2020'' \<and> digits_n 2 ''02'' \<and> digits_n 2 ''29'' \<and> digits_n 2 ''23''
   \<and> digits_n 2 ''59'' \<and> ''123'' \<noteq> [] \<and> list_all is_digit ''123''
   \<and> digits_n 2 ''05'' \<and> digits_n 2 ''30''
   \<and> \<not> is_digit (hd ''x9'') \<and> hd ''x9'' \<noteq> CHR ''Z'' \<and> \<not> starts_offset ''x9''
   \<and> DateTime_from_xml_raw (Element ''{tns}retval'' [] (Some ''2020-02-29T23:59:59.123Zx9'') [])
       = Inr \<lparr>year = 2020, month = 2, day = 29, hour = 23, minute = 59, second = 59,
               microsecond = 123000, tzinfo = Some UTC\<rparr>
   \<and> DateTime_from_xml_raw (Element ''{tns}retval'' [] (Some ''2020-02-29T23:59:59.123+05:30x9'') [])
       = Inr \<lparr>year = 2020, month = 2, day = 29, hour = 23, minute = 59, second = 59,
               microsecond = 123000, tzinfo = Some (FixedOffsetTZ 330)\<rparr>
   \<and> DateTime_from_xml_raw (Element ''{tns}retval'' [] (Some ''2020-02-29T23:59:59.123x9'') [])
       = Inr \<lparr>year = 2020, month = 2, day = 29, hour = 23, minute = 59, second = 59,
               microsecond = 123000, tzinfo = None\<rparr>"
proof -
  have h: "digits_n 4 ''2020''" "digits_n 2 ''02''" "digits_n 2 ''29''" "digits_n 2 ''23''"
    "digits_n 2 ''59''" "digits_n 2 ''59''" "CHR ''T'' = CHR ''T'' \<or> CHR ''T'' = CHR '' ''"
    "''123'' \<noteq> []" "list_all is_digit ''123''"
    "digits_n 2 ''05''" "digits_n 2 ''30''" "CHR ''+'' = CHR ''+'' \<or> CHR ''+'' = CHR ''-''"
    "''x9'' = [] \<or> \<not> is_digit (hd ''x9'')" "''x9'' = [] \<or> hd ''x9'' \<noteq> CHR ''Z''"
    "\<not> starts_offset ''x9''"
    by (simp_all add: digits_n_def is_digit_def starts_offset_def)
  note t = sec_frac_truncated [OF h, of "''{tns}retval''" "[]" "''x9''" "[]" "''x9''"]
  have e: "datetime_new 2020 2 29 23 59 59 123000 z
             = Inr \<lparr>year = 2020, month = 2, day = 29, hour = 23, minute = 59, second = 59,
                     microsecond = 123000, tzinfo = z\<rparr>" for z
    by (simp add: datetime_new_def valid_date_fields_def valid_time_fields_def days_in_month_def
        is_leap_def)
  have n: "nat_of_digits ''2020'' = 2020" "nat_of_digits ''02'' = 2" "nat_of_digits ''29'' = 29"
    "nat_of_digits ''23'' = 23" "nat_of_digits ''59'' = 59" "nat_of_digits ''30'' = 30"
    "nat_of_digits ''05'' = 5" "nat_of_digits ''123'' = 123"
    by (simp_all add: nat_of_digits_def digit_val_def)
  have 1: "DateTime_from_xml_raw (Element ''{tns}retval'' [] (Some ''2020-02-29T23:59:59.123Zx9'') [])
       = Inr \<lparr>year = 2020, month = 2, day = 29, hour = 23, minute = 59, second = 59,
               microsecond = 123000, tzinfo = Some UTC\<rparr>"
    using t [THEN conjunct1] by (simp add: dt_text_def n frac_123 e)
  have 2: "DateTime_from_xml_raw (Element ''{tns}retval'' [] (Some ''2020-02-29T23:59:59.123+05:30x9'') [])
       = Inr \<lparr>year = 2020, month = 2, day = 29, hour = 23, minute = 59, second = 59,
               microsecond = 123000, tzinfo = Some (FixedOffsetTZ 330)\<rparr>"
    using t [THEN conjunct2, THEN conjunct1]
    by (simp add: dt_text_def n frac_123 e FixedOffset_def try_bind_def)
  have 3: "DateTime_from_xml_raw (Element ''{tns}retval'' [] (Some ''2020-02-29T23:59:59.123x9'') [])
       = Inr \<lparr>year = 2020, month = 2, day = 29, hour = 23, minute = 59, second = 59,
               microsecond = 123000, tzinfo = None\<rparr>"
    using t [THEN conjunct2, THEN conjunct2, THEN conjunct1]
    by (simp add: dt_text_def n frac_123 e)
  show ?thesis using h 1 2 3 by simp
qed

section \<open>The datetime round trip\<close>

lemma DateTime_to_xml_some:
  "DateTime_to_xml (Some t) tns parent_elt name
     = Inr (append_child parent_elt
              (Element (qname tns name) [] (Some (datetime_isoformat CHR ''T'' t)) []))"
  by (simp add: DateTime_to_xml_def nillable_value_def DateTime_to_xml_raw_def string_to_xml_def)

text \<open>
  The text \<^verbatim>\<open>2020-01-15T10:30:00Z\<close> is read as a datetime in UTC, and that datetime is
  written as \<^verbatim>\<open>2020-01-15T10:30:00+00:00\<close>: \<^verbatim>\<open>isoformat\<close> never writes \<^verbatim>\<open>Z\<close>.
\<close>

lemma DateTime_Z_literal_rewritten:
  "DateTime_from_xml (Element ''{tns}retval'' [] (Some ''2020-01-15T10:30:00Z'') [])
     = Inr (Some \<lparr>year = 2020, month = 1, day = 15, hour = 10, minute = 30, second = 0,
                    microsecond = 0, tzinfo = Some UTC\<rparr>)
   \<and> DateTime_to_xml (Some \<lparr>year = 2020, month = 1, day = 15, hour = 10, minute = 30, second = 0,
                              microsecond = 0, tzinfo = Some UTC\<rparr>) ''tns'' (Element ''parent'' [] None []) ''retval''
     = Inr (Element ''parent'' [] None [Element ''{tns}retval'' [] (Some ''2020-01-15T10:30:00+00:00'') []])"
  by code_simp

text \<open>
  C2, the code does not do what the claim says.  The datetime 15 January 2020, 10:30:00
  with a fixed offset of -330 minutes is valid; \<open>DateTime_to_xml\<close> writes it as
  \<^verbatim>\<open>2020-01-15T10:30:00-05:30\<close>, and \<open>DateTime_from_xml\<close> on that element returns a
  datetime whose offset is -270 minutes: the sign of the hours is not applied to the
  minutes.  Likewise the valid datetime with 249 microseconds and no zone is written as
  \<^verbatim>\<open>2020-01-15T10:30:00.000249\<close> and read back with 248 microseconds: the double
  nearest to 0.000249, times ten to the power six, lies just below 249 and is truncated.
  Lemma \<open>DateTime_from_xml_raw_isoformat\<close> gives the datetimes for which the round trip
  does hold.
\<close>

theorem DateTime_roundtrip_loses_offset:
  "valid_datetime \<lparr>year = 2020, month = 1, day = 15, hour = 10, minute = 30, second = 0,
                   microsecond = 0, tzinfo = Some (FixedOffsetTZ (- 330))\<rparr>
   \<and> DateTime_to_xml (Some \<lparr>year = 2020, month = 1, day = 15, hour = 10, minute = 30, second = 0,
                              microsecond = 0, tzinfo = Some (FixedOffsetTZ (- 330))\<rparr>)
        ''tns'' (Element ''parent'' [] None []) ''retval''
     = Inr (Element ''parent'' [] None
              [Element ''{tns}retval'' [] (Some ''2020-01-15T10:30:00-05:30'') []])
   \<and> DateTime_from_xml (Element ''{tns}retval'' [] (Some ''2020-01-15T10:30:00-05:30'') [])
     = Inr (Some \<lparr>year = 2020, month = 1, day = 15, hour = 10, minute = 30, second = 0,
                    microsecond = 0, tzinfo = Some (FixedOffsetTZ (- 270))\<rparr>)
   \<and> valid_datetime \<lparr>year = 2020, month = 1, day = 15, hour = 10, minute = 30, second = 0,
                   microsecond = 249, tzinfo = None\<rparr>
   \<and> DateTime_to_xml (Some \<lparr>year = 2020, month = 1, day = 15, hour = 10, minute = 30, second = 0,
                              microsecond = 249, tzinfo = None\<rparr>)
        ''tns'' (Element ''parent'' [] None []) ''retval''
     = Inr (Element ''parent'' [] None
              [Element ''{tns}retval'' [] (Some ''2020-01-15T10:30:00.000249'') []])
   \<and> DateTime_from_xml (Element ''{tns}retval'' [] (Some ''2020-01-15T10:30:00.000249'') [])
     = Inr (Some \<lparr>year = 2020, month = 1, day = 15, hour = 10, minute = 30, second = 0,
                    microsecond = 248, tzinfo = None\<rparr>)"
  by code_simp

end
